theory Spec2Isabelle
  imports Main "HOL-Library.Sublist" "HOL-Library.Code_Target_Nat"
begin

section \<open>Text: Python strings as lists of code points\<close>

text \<open>
  A Python \<^verbatim>\<open>str\<close> is a sequence of Unicode code points, so it is modelled as a list of
  natural numbers. ASCII literals of the source are written with \<open>str_of\<close>; the few
  non-ASCII characters of the source are given by their code point.
\<close>

type_synonym str = "nat list"

definition str_of :: "string \<Rightarrow> str" where
  "str_of cs = map of_char cs"

text \<open>
  \<^verbatim>\<open>str.isspace\<close>, which is also what \<^verbatim>\<open>str.strip()\<close> removes and what \<^verbatim>\<open>\s\<close> matches in a
  \<^verbatim>\<open>str\<close> pattern: the whitespace code points of the interpreter's character table.
\<close>

definition isspace :: "nat \<Rightarrow> bool" where
  "isspace c \<longleftrightarrow>
     (9 \<le> c \<and> c \<le> 13) \<or> (28 \<le> c \<and> c \<le> 32) \<or> c = 133 \<or> c = 160 \<or> c = 5760 \<or>
     (8192 \<le> c \<and> c \<le> 8202) \<or> c = 8232 \<or> c = 8233 \<or> c = 8239 \<or> c = 8287 \<or> c = 12288"

definition lstrip :: "str \<Rightarrow> str" where
  "lstrip s = dropWhile isspace s"

definition rstrip :: "str \<Rightarrow> str" where
  "rstrip s = rev (dropWhile isspace (rev s))"

definition strip :: "str \<Rightarrow> str" where
  "strip s = lstrip (rstrip s)"

text \<open>The operator \<^verbatim>\<open>needle in haystack\<close> on strings: a contiguous occurrence.\<close>

definition str_in :: "str \<Rightarrow> str \<Rightarrow> bool" where
  "str_in needle hay \<longleftrightarrow> sublist needle hay"

text \<open>
  The remaining character data of the interpreter is not part of the repository and is far
  too large to write down: \<^verbatim>\<open>str.lower\<close> (which is not even a code point by code point map),
  the decimal digits matched by \<^verbatim>\<open>\d\<close>, the word characters behind \<^verbatim>\<open>\b\<close>, and the pairs of
  characters that \<^verbatim>\<open>re.IGNORECASE\<close> identifies. The functions below take it as a parameter;
  theorems quantified over it hold for whatever the interpreter's tables are.
\<close>

record ucd =
  lower_of :: "str \<Rightarrow> str"
  is_decimal :: "nat \<Rightarrow> bool"
  is_word :: "nat \<Rightarrow> bool"
  ci_equal :: "nat \<Rightarrow> nat \<Rightarrow> bool"

text \<open>The tables restricted to ASCII, for running the model on ASCII text.\<close>

definition ascii_lower :: "nat \<Rightarrow> nat" where
  "ascii_lower c = (if 65 \<le> c \<and> c \<le> 90 then c + 32 else c)"

definition ascii_digit :: "nat \<Rightarrow> bool" where
  "ascii_digit c \<longleftrightarrow> 48 \<le> c \<and> c \<le> 57"

definition ascii_word :: "nat \<Rightarrow> bool" where
  "ascii_word c \<longleftrightarrow>
     (48 \<le> c \<and> c \<le> 57) \<or> (65 \<le> c \<and> c \<le> 90) \<or> (97 \<le> c \<and> c \<le> 122) \<or> c = 95"

definition ascii_ucd :: ucd where
  "ascii_ucd = \<lparr> lower_of = map ascii_lower, is_decimal = ascii_digit,
                 is_word = ascii_word, ci_equal = (\<lambda>a b. ascii_lower a = ascii_lower b) \<rparr>"

section \<open>Regular expressions\<close>

text \<open>
  The patterns of the source use literals, character sets, \<^verbatim>\<open>\d\<close>, \<^verbatim>\<open>\s\<close>, \<^verbatim>\<open>\b\<close>,
  concatenation, alternation, the greedy quantifiers \<^verbatim>\<open>?\<close>, \<^verbatim>\<open>*\<close>, \<^verbatim>\<open>+\<close> and capturing
  groups. \<open>IChr\<close> is a literal compiled under \<^verbatim>\<open>re.IGNORECASE\<close>.
\<close>

datatype cls_item = One nat | Range nat nat

datatype regex =
    Eps
  | Chr nat
  | IChr nat
  | Cls "cls_item list"
  | NCls "cls_item list"
  | Digit
  | Space
  | WordB
  | Seq regex regex
  | Alt regex regex
  | Opt regex
  | Star regex
  | Plus regex
  | Grp nat regex

fun in_item :: "nat \<Rightarrow> cls_item \<Rightarrow> bool" where
  "in_item c (One d) = (c = d)"
| "in_item c (Range lo hi) = (lo \<le> c \<and> c \<le> hi)"

definition in_cls :: "nat \<Rightarrow> cls_item list \<Rightarrow> bool" where
  "in_cls c items = list_ex (in_item c) items"

text \<open>
  A matcher state is the current position and the groups captured so far (group number,
  start, end). \<open>ms r U s st\<close> lists, in the order a backtracking matcher tries them, the
  states in which \<open>r\<close> can finish when started in \<open>st\<close> on the text \<open>s\<close>: the first
  alternative before the second, more repetitions before fewer.
\<close>

type_synonym mstate = "nat \<times> (nat \<times> nat \<times> nat) list"

definition one_char :: "(nat \<Rightarrow> bool) \<Rightarrow> str \<Rightarrow> mstate \<Rightarrow> mstate list" where
  "one_char p s st =
     (if fst st < length s \<and> p (s ! fst st) then [(Suc (fst st), snd st)] else [])"

definition word_boundary :: "ucd \<Rightarrow> str \<Rightarrow> nat \<Rightarrow> bool" where
  "word_boundary U s i \<longleftrightarrow>
     (0 < i \<and> i \<le> length s \<and> is_word U (s ! (i - 1))) \<noteq> (i < length s \<and> is_word U (s ! i))"

primrec repeat :: "(mstate \<Rightarrow> mstate list) \<Rightarrow> nat \<Rightarrow> mstate \<Rightarrow> mstate list" where
  "repeat f 0 st = [st]"
| "repeat f (Suc n) st =
     concat (map (\<lambda>st'. if fst st < fst st' then repeat f n st' else []) (f st)) @ [st]"

primrec ms :: "regex \<Rightarrow> ucd \<Rightarrow> str \<Rightarrow> mstate \<Rightarrow> mstate list" where
  "ms Eps U s st = [st]"
| "ms (Chr c) U s st = one_char (\<lambda>d. d = c) s st"
| "ms (IChr c) U s st = one_char (ci_equal U c) s st"
| "ms (Cls items) U s st = one_char (\<lambda>d. in_cls d items) s st"
| "ms (NCls items) U s st = one_char (\<lambda>d. \<not> in_cls d items) s st"
| "ms Digit U s st = one_char (is_decimal U) s st"
| "ms Space U s st = one_char isspace s st"
| "ms WordB U s st = (if word_boundary U s (fst st) then [st] else [])"
| "ms (Seq a b) U s st = concat (map (ms b U s) (ms a U s st))"
| "ms (Alt a b) U s st = ms a U s st @ ms b U s st"
| "ms (Opt a) U s st = ms a U s st @ [st]"
| "ms (Star a) U s st = repeat (ms a U s) (length s - fst st) st"
| "ms (Plus a) U s st =
     concat (map (\<lambda>st'. repeat (ms a U s) (length s - fst st') st') (ms a U s st))"
| "ms (Grp n a) U s st =
     map (\<lambda>st'. (fst st', (n, fst st, fst st') # snd st')) (ms a U s st)"

text \<open>\<^verbatim>\<open>pattern.search(text)\<close> as a truth value: some position starts a match.\<close>

definition re_search :: "ucd \<Rightarrow> regex \<Rightarrow> str \<Rightarrow> bool" where
  "re_search U r s = list_ex (\<lambda>i. ms r U s (i, []) \<noteq> []) [0..<Suc (length s)]"

text \<open>Replacement templates: literal text and group references \<^verbatim>\<open>\1\<close>, \<^verbatim>\<open>\2\<close>.\<close>

datatype tpl_item = TLit str | TGrp nat

fun expand_item :: "str \<Rightarrow> (nat \<times> nat \<times> nat) list \<Rightarrow> tpl_item \<Rightarrow> str" where
  "expand_item s g (TLit t) = t"
| "expand_item s g (TGrp n) =
     (case map_of g n of None \<Rightarrow> [] | Some (i, j) \<Rightarrow> take (j - i) (drop i s))"

definition expand :: "tpl_item list \<Rightarrow> str \<Rightarrow> (nat \<times> nat \<times> nat) list \<Rightarrow> str" where
  "expand tpl s g = concat (map (expand_item s g) tpl)"

text \<open>
  \<^verbatim>\<open>pattern.sub(repl, text)\<close>: scan from the left; at the first position where the pattern
  matches, emit the expanded template and go on behind the match, else copy one character.
  No pattern of the source matches the empty string; the branch for an empty match
  replaces it and copies the next character.
\<close>

function sub_from :: "ucd \<Rightarrow> regex \<Rightarrow> tpl_item list \<Rightarrow> str \<Rightarrow> nat \<Rightarrow> str" where
  "sub_from U r tpl s i =
     (if length s < i then []
      else case ms r U s (i, []) of
        [] \<Rightarrow> (if i < length s then s ! i # sub_from U r tpl s (Suc i) else [])
      | st # _ \<Rightarrow>
          if i < fst st then expand tpl s (snd st) @ sub_from U r tpl s (fst st)
          else expand tpl s (snd st) @
               (if i < length s then s ! i # sub_from U r tpl s (Suc i) else []))"
  by pat_completeness auto
termination
  by (relation "measure (\<lambda>(U, r, tpl, s, i). Suc (length s) - i)") auto

declare sub_from.simps [simp del]

definition re_sub :: "ucd \<Rightarrow> regex \<Rightarrow> tpl_item list \<Rightarrow> str \<Rightarrow> str" where
  "re_sub U r tpl s = sub_from U r tpl s 0"

text \<open>A literal string as a pattern, with or without \<^verbatim>\<open>re.IGNORECASE\<close>.\<close>

definition lit :: "string \<Rightarrow> regex" where
  "lit cs = foldr (\<lambda>c r. Seq (Chr c) r) (str_of cs) Eps"

definition ilit :: "string \<Rightarrow> regex" where
  "ilit cs = foldr (\<lambda>c r. Seq (IChr c) r) (str_of cs) Eps"

section \<open>Guardrails (agents.py, class MathGuardrails)\<close>

definition alts :: "regex list \<Rightarrow> regex" where
  "alts rs = foldr Alt rs (Cls [])"

definition seqs :: "regex list \<Rightarrow> regex" where
  "seqs rs = foldr Seq rs Eps"

definition MATH_KEYWORDS :: "str list" where
  "MATH_KEYWORDS = map str_of
    [''solve'', ''equation'', ''derivative'', ''integral'', ''function'', ''graph'', ''plot'',
     ''algebra'', ''calculus'', ''geometry'', ''trigonometry'', ''statistics'', ''probability'',
     ''matrix'', ''vector'', ''limit'', ''series'', ''theorem'', ''proof'', ''formula'',
     ''calculate'', ''compute'', ''simplify'', ''factor'', ''expand'', ''evaluate'',
     ''polynomial'', ''exponential'', ''logarithm'', ''sine'', ''cosine'', ''tangent'',
     ''differential'', ''optimization'', ''minimum'', ''maximum'', ''area'', ''volume'',
     ''perimeter'', ''distance'', ''slope'', ''intercept'', ''quadratic'', ''linear'',
     ''parabola'', ''circle'', ''triangle'', ''rectangle'', ''sphere'', ''cylinder'',
     ''binomial'', ''factorial'', ''permutation'', ''combination'', ''variance'', ''deviation'']"

text \<open>
  The nine compiled patterns, in the order of the source. Code points: 8804, 8805, 8800, 177
  and 8734 are the signs for less-or-equal, greater-or-equal, not-equal, plus-minus and
  infinity; 8747, 8721, 8719, 8706, 8710 are integral, summation, product, partial
  differential and increment; 960, 952, 945, 946, 947, 955, 956, 963 are the Greek letters
  pi, theta, alpha, beta, gamma, lambda, mu, sigma; 178 and 179 are superscript two and three.
\<close>

definition xy :: regex where
  "xy = Cls (map One (str_of ''xy''))"

definition MATH_PATTERNS :: "regex list" where
  "MATH_PATTERNS =
    [Cls (map One (str_of ''+-*/=<>'' @ [8804, 8805, 8800, 177, 8734])),
     seqs [xy, Opt (Chr (of_char CHR ''^'')), Star Digit],
     seqs [Plus Digit, xy],
     alts [ilit ''sin'', ilit ''cos'', ilit ''tan'', ilit ''log'', ilit ''ln'', ilit ''sqrt''],
     alts (map Chr [8747, 8721, 8719, 8706, 8710, 960, 952, 945, 946, 947, 955, 956, 963]),
     seqs [WordB, Plus Digit, Chr (of_char CHR ''.''), Plus Digit, WordB],
     seqs [WordB, Plus Digit, Chr (of_char CHR ''/''), Plus Digit, WordB],
     seqs [Chr (of_char CHR ''(''), Star (NCls [One (of_char CHR '')'')]), xy,
           Star (NCls [One (of_char CHR '')'')]), Chr (of_char CHR '')'')],
     Alt (seqs [Cls [Range (of_char CHR ''a'') (of_char CHR ''z'')], Star Space, Chr 178])
         (seqs [Cls [Range (of_char CHR ''a'') (of_char CHR ''z'')], Star Space, Chr 179])]"

definition NON_MATH_INDICATORS :: "str list" where
  "NON_MATH_INDICATORS = map str_of
    [''write a story'', ''tell me a joke'', ''weather'', ''news'', ''recipe'',
     ''movie'', ''book recommendation'', ''health advice'', ''relationship'',
     ''what is your opinion'', ''how do you feel'', ''personal experience'']"

definition EDGE_CASE_WORDS :: "str list" where
  "EDGE_CASE_WORDS = map str_of [''find'', ''what is'', ''how much'', ''calculate'']"

text \<open>
  The replacement list, in the order of the source; 92 is the backslash, 8730 the square
  root sign. A template \<^verbatim>\<open>r'\\frac{\1}{\2}'\<close> expands to a backslash, \<^verbatim>\<open>frac{\<close>, group 1,
  \<^verbatim>\<open>}{\<close>, group 2, \<^verbatim>\<open>}\<close>.
\<close>

definition word_ci :: "string \<Rightarrow> regex" where
  "word_ci w = seqs [WordB, ilit w, WordB]"

definition paren_arg :: regex where
  "paren_arg = seqs [Chr (of_char CHR ''(''), Grp 1 (Plus (NCls [One (of_char CHR '')'')])),
                     Chr (of_char CHR '')'')]"

definition REPLACEMENTS :: "(regex \<times> tpl_item list) list" where
  "REPLACEMENTS =
    [(seqs [Grp 1 (Plus Digit), Chr (of_char CHR ''/''), Grp 2 (Plus Digit)],
        [TLit (92 # str_of ''frac{''), TGrp 1, TLit (str_of ''}{''), TGrp 2, TLit (str_of ''}'')]),
     (seqs [Chr (of_char CHR ''^''), Grp 1 (Plus Digit)],
        [TLit (str_of ''^{''), TGrp 1, TLit (str_of ''}'')]),
     (seqs [Chr (of_char CHR ''^''),
            Grp 1 (Plus (Cls [Range (of_char CHR ''a'') (of_char CHR ''z''),
                              Range (of_char CHR ''A'') (of_char CHR ''Z'')]))],
        [TLit (str_of ''^{''), TGrp 1, TLit (str_of ''}'')]),
     (seqs [lit ''sqrt'', paren_arg],
        [TLit (92 # str_of ''sqrt{''), TGrp 1, TLit (str_of ''}'')]),
     (seqs [Chr 8730, paren_arg],
        [TLit (92 # str_of ''sqrt{''), TGrp 1, TLit (str_of ''}'')]),
     (word_ci ''pi'', [TLit [960]]),
     (word_ci ''infinity'', [TLit [8734]]),
     (word_ci ''theta'', [TLit [952]]),
     (word_ci ''alpha'', [TLit [945]]),
     (word_ci ''beta'', [TLit [946]]),
     (word_ci ''gamma'', [TLit [947]]),
     (lit ''d/dx'', [TLit (92 # str_of ''frac{d}{dx}'')]),
     (word_ci ''integral'', [TLit [8747]])]"

definition has_math_keywords :: "str \<Rightarrow> bool" where
  "has_math_keywords topic_lower = list_ex (\<lambda>keyword. str_in keyword topic_lower) MATH_KEYWORDS"

definition has_math_patterns :: "ucd \<Rightarrow> str \<Rightarrow> bool" where
  "has_math_patterns U topic_lower = list_ex (\<lambda>pattern. re_search U pattern topic_lower) MATH_PATTERNS"

definition has_non_math_indicator :: "str \<Rightarrow> bool" where
  "has_non_math_indicator topic_lower =
     list_ex (\<lambda>indicator. str_in indicator topic_lower) NON_MATH_INDICATORS"

definition msg_empty :: str where
  "msg_empty = str_of ''Please provide a mathematical question or problem.''"

definition msg_non_math :: str where
  "msg_non_math = str_of
     ''I'm designed specifically for mathematical problems. Please ask a maths related question.''"

definition msg_valid :: str where
  "msg_valid = str_of ''Valid mathematical input''"

definition msg_caution :: str where
  "msg_caution = str_of ''Potentially maths problem, so proceed with caution''"

definition msg_not_mathematical :: str where
  "msg_not_mathematical = str_of
     ''This doesn't appear to be a mathematical question. I specialize in solving math problems. Please ask about equations, calculations, or mathematical concepts.''"

definition validate_math_input :: "ucd \<Rightarrow> str \<Rightarrow> bool \<times> str" where
  "validate_math_input U topic =
     (if topic = [] \<or> strip topic = [] then (False, msg_empty)
      else let topic_lower = strip (lower_of U topic) in
        if has_non_math_indicator topic_lower then (False, msg_non_math)
        else if has_math_keywords topic_lower \<or> has_math_patterns U topic_lower
          then (True, msg_valid)
        else if list_ex (\<lambda>word. str_in word topic_lower) EDGE_CASE_WORDS
          then (True, msg_caution)
        else (False, msg_not_mathematical))"

definition format_math_output :: "ucd \<Rightarrow> str \<Rightarrow> str" where
  "format_math_output U text =
     (if text = [] then text
      else foldl (\<lambda>formatted (pattern, replacement). re_sub U pattern replacement formatted)
             text REPLACEMENTS)"

section \<open>Stages (agents.py, class MathematicalAgent)\<close>

text \<open>
  The language model, the agent framework and the tool server are remote collaborators.
  A \<open>services\<close> value fixes what they answer while one stage runs: each call either
  returns or raises. An exception is represented by its message, \<^verbatim>\<open>str(e)\<close>; the handlers
  of the source all catch \<^verbatim>\<open>Exception\<close>. Every stage reports the calls it made, in order,
  next to its result; output written with \<^verbatim>\<open>print\<close> is not modelled.
\<close>

datatype py_exception = Exception str

datatype function_agent = FunctionAgent string "string list"

record services =
  load_mcp_tools :: "py_exception + string list"
  new_function_agent :: "string \<Rightarrow> string list \<Rightarrow> py_exception + function_agent"
  agent_run :: "function_agent \<Rightarrow> str \<Rightarrow> py_exception + str"
  llm_acomplete :: "str \<Rightarrow> py_exception + str"

datatype call =
    LoadMcpTools
  | NewFunctionAgent string
  | AgentRun function_agent str
  | LlmComplete str

record mathematical_agent =
  research_agent :: "function_agent option"
  math_agent :: "function_agent option"
  tools_initialized :: bool

definition new_mathematical_agent :: mathematical_agent where
  "new_mathematical_agent =
     \<lparr> research_agent = None, math_agent = None, tools_initialized = False \<rparr>"

definition get_mcp_tools :: "services \<Rightarrow> string list" where
  "get_mcp_tools svc = (case load_mcp_tools svc of Inr tools \<Rightarrow> tools | Inl e \<Rightarrow> [])"

text \<open>
  \<^verbatim>\<open>_create_agents\<close>: both constructors run in their own \<^verbatim>\<open>try\<close>; a failure leaves the agent
  \<^verbatim>\<open>None\<close>. The research agent gets the retrieval tool and the tools of the tool server, the
  solver agent none. The descriptions and system prompts passed to the constructors are
  fixed texts and are left out.
\<close>

definition create_agents :: "services \<Rightarrow> mathematical_agent \<Rightarrow> mathematical_agent \<times> call list" where
  "create_agents svc self =
     (if tools_initialized self then (self, [])
      else
        let tools = ''rag_knowledge_search'' # get_mcp_tools svc;
            self1 = (case new_function_agent svc ''MathResearchAgent'' tools of
                       Inr a \<Rightarrow> self\<lparr>research_agent := Some a\<rparr>
                     | Inl e \<Rightarrow> self\<lparr>research_agent := None\<rparr>);
            self2 = (case new_function_agent svc ''MathSolverAgent'' [] of
                       Inr a \<Rightarrow> self1\<lparr>math_agent := Some a\<rparr>
                     | Inl e \<Rightarrow> self1\<lparr>math_agent := None\<rparr>)
        in (self2\<lparr>tools_initialized := True\<rparr>,
            [LoadMcpTools, NewFunctionAgent ''MathResearchAgent'',
             NewFunctionAgent ''MathSolverAgent'']))"

definition research_prompt :: "str \<Rightarrow> str" where
  \<open>research_prompt topic =
     str_of ''Provide comprehensive mathematical research and context for: '' @ topic @
     str_of ''\<newline>\<newline>Include relevant definitions, formulas, theorems, and solution approaches.''\<close>

definition research_fallback_prompt :: "str \<Rightarrow> str" where
  \<open>research_fallback_prompt topic =
     str_of ''Research mathematical context for: '' @ topic @
     str_of ''\<newline>                            Provide:\<newline>                            1. Relevant mathematical concepts and definitions\<newline>                            2. Applicable formulas and theorems  \<newline>                            3. Common solution methods\<newline>                            4. Mathematical background and theory\<newline>                            Focus on information needed to solve this type of problem.''\<close>

definition research_fallback_text :: str where
  \<open>research_fallback_text =
     str_of ''I'll solve this mathematical problem using fundamental principles.''\<close>

text \<open>
  A stage returns the agent object as it leaves it, the calls it made, and its outcome.
  The outcome type has room for an exception, because the callers wrap the stage in
  \<^verbatim>\<open>try\<close>; the stages themselves end in a handler that returns a text.
\<close>

type_synonym stage_result = "mathematical_agent \<times> call list \<times> (py_exception + str)"

definition research_fallback :: "services \<Rightarrow> mathematical_agent \<Rightarrow> call list \<Rightarrow> str \<Rightarrow> stage_result" where
  "research_fallback svc self calls topic =
     (let fallback_prompt = research_fallback_prompt topic in
      case llm_acomplete svc fallback_prompt of
        Inr result \<Rightarrow> (self, calls @ [LlmComplete fallback_prompt], Inr result)
      | Inl e \<Rightarrow> (self, calls @ [LlmComplete fallback_prompt], Inr research_fallback_text))"

definition research_topic :: "ucd \<Rightarrow> services \<Rightarrow> mathematical_agent \<Rightarrow> str \<Rightarrow> stage_result" where
  "research_topic U svc self topic =
     (case validate_math_input U topic of (is_valid, message) \<Rightarrow>
        if \<not> is_valid then (self, [], Inr message)
        else case create_agents svc self of (self1, calls) \<Rightarrow>
          (case research_agent self1 of
             Some a \<Rightarrow>
               (case agent_run svc a (research_prompt topic) of
                  Inr result \<Rightarrow> (self1, calls @ [AgentRun a (research_prompt topic)], Inr result)
                | Inl e \<Rightarrow>
                    research_fallback svc self1 (calls @ [AgentRun a (research_prompt topic)]) topic)
           | None \<Rightarrow> research_fallback svc self1 calls topic))"

definition solve_prompt :: "str \<Rightarrow> str \<Rightarrow> str" where
  \<open>solve_prompt topic research_context =
     str_of ''RESEARCH CONTEXT:\<newline>'' @ research_context @
     str_of ''\<newline>\<newline>PROBLEM TO SOLVE:\<newline>'' @ topic @
     str_of ''\<newline>\<newline>Provide a complete step-by-step solution with clear explanations for each step.''\<close>

definition solve_fallback_prompt :: "str \<Rightarrow> str \<Rightarrow> str" where
  \<open>solve_fallback_prompt topic research_context =
     str_of ''Solve this mathematical problem step by step:\<newline>            PROBLEM: '' @ topic @
     str_of ''\<newline>\<newline>            CONTEXT: '' @ research_context @
     str_of ''\<newline>\<newline>            Requirements:\<newline>            - Provide complete step-by-step solution\<newline>            - Explain mathematical reasoning for each step\<newline>            - Show all calculations clearly\<newline>            - Use proper mathematical notation\<newline>            - State the final answer prominently\<newline>\<newline>            Solve systematically and thoroughly.''\<close>

definition solve_fallback :: "ucd \<Rightarrow> services \<Rightarrow> mathematical_agent \<Rightarrow> call list \<Rightarrow> str \<Rightarrow> str \<Rightarrow> stage_result" where
  "solve_fallback U svc self calls topic research_context =
     (let fallback_prompt = solve_fallback_prompt topic research_context in
      case llm_acomplete svc fallback_prompt of
        Inr result \<Rightarrow>
          (self, calls @ [LlmComplete fallback_prompt], Inr (format_math_output U result))
      | Inl (Exception e) \<Rightarrow>
          (self, calls @ [LlmComplete fallback_prompt],
           Inr (str_of ''I encountered an error solving this problem: '' @ e)))"

definition solve_problem :: "ucd \<Rightarrow> services \<Rightarrow> mathematical_agent \<Rightarrow> str \<Rightarrow> str \<Rightarrow> stage_result" where
  "solve_problem U svc self topic research_context =
     (case validate_math_input U topic of (is_valid, message) \<Rightarrow>
        if \<not> is_valid then (self, [], Inr message)
        else case create_agents svc self of (self1, calls) \<Rightarrow>
          (case math_agent self1 of
             Some a \<Rightarrow>
               (let prompt = solve_prompt topic research_context in
                case agent_run svc a prompt of
                  Inr result \<Rightarrow>
                    (self1, calls @ [AgentRun a prompt], Inr (format_math_output U result))
                | Inl e \<Rightarrow>
                    solve_fallback U svc self1 (calls @ [AgentRun a prompt]) topic research_context)
           | None \<Rightarrow> solve_fallback U svc self1 calls topic research_context))"

definition improve_prompt :: "str \<Rightarrow> str \<Rightarrow> str \<Rightarrow> str" where
  \<open>improve_prompt original_solution feedback topic =
     str_of ''ORIGINAL PROBLEM: '' @ topic @
     str_of ''\<newline>                ORIGINAL SOLUTION:\<newline>                '' @ original_solution @
     str_of ''\<newline>\<newline>                HUMAN FEEDBACK: '' @ feedback @
     str_of ''\<newline>\<newline>                Based on the feedback, improve the solution by:\<newline>                - Addressing specific concerns or questions\<newline>                - Providing additional explanations where needed\<newline>                - Correcting any errors identified\<newline>                - Adding more detail or alternative approaches\<newline>                - Maintaining mathematical accuracy\<newline>                Provide an improved, comprehensive solution that addresses the feedback.''\<close>

definition improve_fallback_prompt :: "str \<Rightarrow> str \<Rightarrow> str \<Rightarrow> str" where
  \<open>improve_fallback_prompt original_solution feedback topic =
     str_of ''Improve this mathematical solution based on feedback:\<newline>            PROBLEM: '' @ topic @
     str_of ''\<newline>            ORIGINAL SOLUTION: '' @ original_solution @
     str_of ''\<newline>            FEEDBACK: '' @ feedback @
     str_of ''\<newline>\<newline>            Provide an improved solution that addresses the feedback while maintaining accuracy.''\<close>

definition improve_fallback :: "ucd \<Rightarrow> services \<Rightarrow> mathematical_agent \<Rightarrow> call list \<Rightarrow> str \<Rightarrow> str \<Rightarrow> str \<Rightarrow> stage_result" where
  "improve_fallback U svc self calls original_solution feedback topic =
     (let fallback_prompt = improve_fallback_prompt original_solution feedback topic in
      case llm_acomplete svc fallback_prompt of
        Inr result \<Rightarrow>
          (self, calls @ [LlmComplete fallback_prompt], Inr (format_math_output U result))
      | Inl (Exception e) \<Rightarrow>
          (self, calls @ [LlmComplete fallback_prompt],
           Inr (str_of ''I encountered an error improving the solution: '' @ e)))"

definition improve_solution :: "ucd \<Rightarrow> services \<Rightarrow> mathematical_agent \<Rightarrow> str \<Rightarrow> str \<Rightarrow> str \<Rightarrow> stage_result" where
  "improve_solution U svc self original_solution feedback topic =
     (case create_agents svc self of (self1, calls) \<Rightarrow>
        (case math_agent self1 of
           Some a \<Rightarrow>
             (let prompt = improve_prompt original_solution feedback topic in
              case agent_run svc a prompt of
                Inr result \<Rightarrow>
                  (self1, calls @ [AgentRun a prompt], Inr (format_math_output U result))
              | Inl e \<Rightarrow>
                  improve_fallback U svc self1 (calls @ [AgentRun a prompt])
                    original_solution feedback topic)
         | None \<Rightarrow> improve_fallback U svc self1 calls original_solution feedback topic))"

text \<open>The calls that reach an agent or the language model.\<close>

fun is_model_call :: "call \<Rightarrow> bool" where
  "is_model_call (AgentRun a p) = True"
| "is_model_call (LlmComplete p) = True"
| "is_model_call c = False"

section \<open>Sessions and the HTTP handlers (main.py)\<close>

record message =
  role :: string
  content :: str

record session =
  agent :: mathematical_agent
  status :: string
  messages :: "message list"
  waiting_for_approval :: bool
  current_solution :: "str option"
  current_topic :: str
  research_context :: "str option"

text \<open>
  The global \<^verbatim>\<open>sessions\<close> dictionary maps a session id to a session object. The handlers keep
  a reference to the object across their \<^verbatim>\<open>await\<close>s, also after the id has been deleted, so
  objects live in a heap and the dictionary holds addresses. A handler runs without
  interruption up to an \<^verbatim>\<open>await\<close> of a stage; what is suspended there is a pending task,
  which records the local variables the rest of the handler uses.
\<close>

datatype task =
    PipelineStart str str
  | AwaitResearch nat str str
  | AwaitSolve nat str str str
  | AwaitImprove nat str str str

record server =
  sessions :: "str \<rightharpoonup> nat"
  heap :: "session list"
  tasks :: "task list"

definition init :: server where
  "init = \<lparr> sessions = Map.empty, heap = [], tasks = [] \<rparr>"

definition upd :: "nat \<Rightarrow> (session \<Rightarrow> session) \<Rightarrow> server \<Rightarrow> server" where
  "upd a f \<sigma> = \<sigma>\<lparr>heap := (heap \<sigma>)[a := f (heap \<sigma> ! a)]\<rparr>"

definition append_message :: "string \<Rightarrow> str \<Rightarrow> session \<Rightarrow> session" where
  "append_message r c sess = sess\<lparr>messages := messages sess @ [\<lparr>role = r, content = c\<rparr>]\<rparr>"

record chat_request =
  req_topic :: str
  req_session_id :: "str option"

record human_input_request =
  hi_session_id :: str
  feedback :: str

datatype http_error = HTTPException nat str

record chat_response =
  resp_session_id :: str
  resp_status :: string
  resp_messages :: "message list"

record state_response =
  st_session_id :: str
  st_status :: string
  st_messages :: "message list"
  st_waiting :: "(string \<times> string) list option"

subsection \<open>process_math_question\<close>

definition approval_message :: "str \<Rightarrow> str" where
  \<open>approval_message solution =
     str_of '' Yay! Solution Complete!\<newline>        Here's my step by step solution:\<newline>\<newline>        '' @ solution @
     str_of ''\<newline>\<newline>        ---\<newline>        Please Review:\<newline>        - Type "approve" if the solution is correct\<newline>        - Or provide specific feedback for improvements.''\<close>

text \<open>The handler of the \<^verbatim>\<open>try\<close> around the pipeline; it looks the session id up again.\<close>

definition pm_except :: "str \<Rightarrow> py_exception \<Rightarrow> server \<Rightarrow> server" where
  "pm_except session_id e \<sigma> =
     (case e of Exception msg \<Rightarrow>
        case sessions \<sigma> session_id of
          None \<Rightarrow> \<sigma>
        | Some a \<Rightarrow>
            upd a (\<lambda>sess. append_message ''assistant'' (str_of ''I encountered an error: '' @ msg)
                             (sess\<lparr>status := ''error''\<rparr>)) \<sigma>)"

text \<open>
  The three segments of the task, cut at the two \<^verbatim>\<open>await\<close>s. Each returns the new server
  state and the task that remains pending, if any.
\<close>

definition pm_start :: "str \<Rightarrow> str \<Rightarrow> server \<Rightarrow> server \<times> task option" where
  "pm_start session_id topic \<sigma> =
     (case sessions \<sigma> session_id of
        None \<Rightarrow> (\<sigma>, None)
      | Some a \<Rightarrow> (upd a (\<lambda>sess. sess\<lparr>status := ''researching''\<rparr>) \<sigma>,
                   Some (AwaitResearch a session_id topic)))"

definition pm_research :: "ucd \<Rightarrow> services \<Rightarrow> nat \<Rightarrow> str \<Rightarrow> str \<Rightarrow> server \<Rightarrow> server \<times> task option" where
  "pm_research U svc a session_id topic \<sigma> =
     (case research_topic U svc (agent (heap \<sigma> ! a)) topic of
        (agent1, calls, Inr research_result) \<Rightarrow>
          (upd a (\<lambda>sess. sess\<lparr>agent := agent1, research_context := Some research_result,
                              status := ''solving''\<rparr>) \<sigma>,
           Some (AwaitSolve a session_id topic research_result))
      | (agent1, calls, Inl e) \<Rightarrow>
          (pm_except session_id e (upd a (\<lambda>sess. sess\<lparr>agent := agent1\<rparr>) \<sigma>), None))"

definition pm_solve :: "ucd \<Rightarrow> services \<Rightarrow> nat \<Rightarrow> str \<Rightarrow> str \<Rightarrow> str \<Rightarrow> server \<Rightarrow> server \<times> task option" where
  "pm_solve U svc a session_id topic research_result \<sigma> =
     (case solve_problem U svc (agent (heap \<sigma> ! a)) topic research_result of
        (agent1, calls, Inr solution) \<Rightarrow>
          (upd a (\<lambda>sess. append_message ''assistant'' (approval_message solution)
                   (sess\<lparr>agent := agent1, current_solution := Some solution,
                         waiting_for_approval := True, status := ''waiting_for_approval''\<rparr>)) \<sigma>,
           None)
      | (agent1, calls, Inl e) \<Rightarrow>
          (pm_except session_id e (upd a (\<lambda>sess. sess\<lparr>agent := agent1\<rparr>) \<sigma>), None))"

subsection \<open>POST /chat\<close>

definition new_session :: "str \<Rightarrow> session" where
  "new_session topic =
     \<lparr> agent = new_mathematical_agent, status = ''processing'',
       messages = [\<lparr>role = ''user'', content = topic\<rparr>],
       waiting_for_approval = False, current_solution = None,
       current_topic = topic, research_context = None \<rparr>"

text \<open>
  \<open>uuid\<close> is the value of \<^verbatim>\<open>uuid.uuid4().hex\<close> in this request. The condition
  \<^verbatim>\<open>req.session_id and req.session_id in sessions\<close> fails for a missing, an empty and an
  unknown id alike. \<^verbatim>\<open>asyncio.create_task\<close> adds the pipeline to the pending tasks.
\<close>

definition chat :: "str \<Rightarrow> chat_request \<Rightarrow> server \<Rightarrow> (http_error + chat_response) \<times> server" where
  "chat uuid req \<sigma> =
     (case (case req_session_id req of
              None \<Rightarrow> None
            | Some sid \<Rightarrow> if sid \<noteq> [] then map_option (Pair sid) (sessions \<sigma> sid) else None) of
        Some (session_id, a) \<Rightarrow>
          (let \<sigma>1 = upd a (append_message ''user'' (req_topic req)) \<sigma>;
               \<sigma>2 = \<sigma>1\<lparr>tasks := tasks \<sigma>1 @ [PipelineStart session_id (req_topic req)]\<rparr>
           in (Inr \<lparr> resp_session_id = session_id, resp_status = ''processing'',
                     resp_messages = messages (heap \<sigma>2 ! a) \<rparr>, \<sigma>2))
      | None \<Rightarrow>
          (let session_id = uuid;
               a = length (heap \<sigma>);
               \<sigma>1 = \<sigma>\<lparr>heap := heap \<sigma> @ [new_session (req_topic req)],
                       sessions := (sessions \<sigma>)(session_id \<mapsto> a)\<rparr>;
               \<sigma>2 = \<sigma>1\<lparr>tasks := tasks \<sigma>1 @ [PipelineStart session_id (req_topic req)]\<rparr>
           in (Inr \<lparr> resp_session_id = session_id, resp_status = ''processing'',
                     resp_messages = messages (heap \<sigma>2 ! a) \<rparr>, \<sigma>2)))"

subsection \<open>GET and DELETE /chat/{session_id}\<close>

definition get_chat :: "str \<Rightarrow> server \<Rightarrow> http_error + state_response" where
  "get_chat session_id \<sigma> =
     (case sessions \<sigma> session_id of
        None \<Rightarrow> Inl (HTTPException 404 (str_of ''Session not found''))
      | Some a \<Rightarrow>
          (let sess = heap \<sigma> ! a in
           Inr \<lparr> st_session_id = session_id, st_status = status sess, st_messages = messages sess,
                 st_waiting = (if waiting_for_approval sess then Some [(''key'', ''approval'')]
                               else None) \<rparr>))"

definition delete_session :: "str \<Rightarrow> server \<Rightarrow> (http_error + str) \<times> server" where
  "delete_session session_id \<sigma> =
     (if session_id \<in> dom (sessions \<sigma>)
      then (Inr (str_of ''Session deleted''), \<sigma>\<lparr>sessions := (sessions \<sigma>)(session_id := None)\<rparr>)
      else (Inl (HTTPException 404 (str_of ''Session not found'')), \<sigma>))"

subsection \<open>POST /human-input\<close>

definition APPROVAL_WORDS :: "str list" where
  "APPROVAL_WORDS = map str_of
     [''approve'', ''approved'', ''yes'', ''ok'', ''correct'', ''good'', ''looks good'']"

definition approves :: "ucd \<Rightarrow> str \<Rightarrow> bool" where
  "approves U fb =
     (let feedback_lower = lower_of U (strip fb)
      in list_ex (\<lambda>word. str_in word feedback_lower) APPROVAL_WORDS)"

text \<open>An f-string prints a missing solution as \<^verbatim>\<open>None\<close>.\<close>

definition fstr :: "str option \<Rightarrow> str" where
  "fstr v = (case v of None \<Rightarrow> str_of ''None'' | Some s \<Rightarrow> s)"

definition approved_message :: "str option \<Rightarrow> str" where
  \<open>approved_message solution0 =
     str_of ''Solution Approved!\<newline>            Final Solution:\<newline>            '' @ fstr solution0\<close>

text \<open>The closing part of the answer to a revision: the new review prompt.\<close>

definition review_again_prompt :: str where
  \<open>review_again_prompt =
     str_of ''\<newline>\<newline>            ---\<newline>            Please Review Again: \<newline>            - Type "approve" if this solution looks good\<newline>            - Or provide additional feedback for further refinements''\<close>

definition improved_message :: "str \<Rightarrow> str \<Rightarrow> str" where
  \<open>improved_message fb improved_solution =
     str_of ''Solution Improved Based on user Feedback\<newline>            Your Feedback: '' @ fb @
     str_of ''\<newline>\<newline>            Improved Solution:\<newline>            '' @ improved_solution @
     review_again_prompt\<close>

definition thanks_message :: str where
  "thanks_message = str_of ''Thank you for the feedback! Let me improve the solution...''"

definition hi_success :: "(string \<times> string) list" where
  "hi_success = [(''status'', ''success''), (''message'', ''Feedback processed successfully'')]"

text \<open>The handler of the \<^verbatim>\<open>try\<close> in \<^verbatim>\<open>human_input\<close>: it works on the session object it holds.\<close>

definition hi_except :: "nat \<Rightarrow> py_exception \<Rightarrow> server \<Rightarrow> (http_error + (string \<times> string) list) \<times> server" where
  "hi_except a e \<sigma> =
     (case e of Exception msg \<Rightarrow>
        (Inl (HTTPException 500 (str_of ''Error: '' @ msg)),
         upd a (\<lambda>sess. append_message ''assistant''
                          (str_of ''I encountered an error processing your feedback: '' @ msg)
                          (sess\<lparr>status := ''error''\<rparr>)) \<sigma>))"

text \<open>
  The handler up to the \<^verbatim>\<open>await\<close> of the Revise stage. With an approving feedback it finishes
  and answers; otherwise it answers nothing yet (\<open>None\<close>) and leaves a pending task holding
  the feedback, the solution it read and the topic.
\<close>

definition human_input ::
  "ucd \<Rightarrow> human_input_request \<Rightarrow> server \<Rightarrow> (http_error + (string \<times> string) list) option \<times> server" where
  "human_input U req \<sigma> =
     (case sessions \<sigma> (hi_session_id req) of
        None \<Rightarrow> (Some (Inl (HTTPException 404 (str_of ''Session not found''))), \<sigma>)
      | Some a \<Rightarrow>
          if \<not> waiting_for_approval (heap \<sigma> ! a)
          then (Some (Inl (HTTPException 400 (str_of ''Session is not waiting for feedback''))), \<sigma>)
          else
            let \<sigma>1 = upd a (append_message ''user'' (feedback req)) \<sigma>;
                solution0 = current_solution (heap \<sigma>1 ! a)
            in if approves U (feedback req) then
                 (Some (Inr hi_success),
                  upd a (\<lambda>sess. append_message ''assistant'' (approved_message solution0)
                           (sess\<lparr>status := ''completed'', waiting_for_approval := False,
                                 current_solution := None\<rparr>)) \<sigma>1)
               else
                 (let \<sigma>2 = upd a (\<lambda>sess. append_message ''assistant'' thanks_message
                                     (sess\<lparr>status := ''improving''\<rparr>)) \<sigma>1
                  in (None, \<sigma>2\<lparr>tasks := tasks \<sigma>2 @
                        [AwaitImprove a (fstr solution0) (feedback req)
                           (current_topic (heap \<sigma>2 ! a))]\<rparr>)))"

text \<open>The rest of the handler, from the \<^verbatim>\<open>await\<close> of the Revise stage on.\<close>

definition hi_improve ::
  "ucd \<Rightarrow> services \<Rightarrow> nat \<Rightarrow> str \<Rightarrow> str \<Rightarrow> str \<Rightarrow> server \<Rightarrow> (http_error + (string \<times> string) list) \<times> server" where
  "hi_improve U svc a original_solution fb topic \<sigma> =
     (case improve_solution U svc (agent (heap \<sigma> ! a)) original_solution fb topic of
        (agent1, calls, Inr improved_solution) \<Rightarrow>
          (Inr hi_success,
           upd a (\<lambda>sess. append_message ''assistant'' (improved_message fb improved_solution)
                    (sess\<lparr>agent := agent1, current_solution := Some improved_solution,
                          status := ''waiting_for_approval''\<rparr>)) \<sigma>)
      | (agent1, calls, Inl e) \<Rightarrow> hi_except a e (upd a (\<lambda>sess. sess\<lparr>agent := agent1\<rparr>) \<sigma>))"

subsection \<open>Executions\<close>

text \<open>
  An execution is a list of events: a request arrives and its handler runs to its first
  \<^verbatim>\<open>await\<close> of a stage, or the event loop resumes pending task number \<open>k\<close>, the outside
  world behaving as \<open>svc\<close> during that stage. A resumed task is replaced in place by what
  remains of it. The stage a task waits for is computed at the moment the task is resumed,
  on the agent object as it is then; the stages touch nothing of a session but its agent
  object, so the interleavings inside a stage are not distinguished. Any order of events
  is an execution: nothing in the source serialises the requests for one session.
\<close>

datatype event =
    Chat chat_request str
  | GetChat str
  | DeleteSession str
  | HumanInput human_input_request
  | Resume nat services

definition set_task :: "nat \<Rightarrow> task option \<Rightarrow> server \<Rightarrow> server" where
  "set_task k t \<sigma> =
     (case t of
        Some t' \<Rightarrow> \<sigma>\<lparr>tasks := (tasks \<sigma>)[k := t']\<rparr>
      | None \<Rightarrow> \<sigma>\<lparr>tasks := take k (tasks \<sigma>) @ drop (Suc k) (tasks \<sigma>)\<rparr>)"

fun resume :: "ucd \<Rightarrow> services \<Rightarrow> task \<Rightarrow> server \<Rightarrow> server \<times> task option" where
  "resume U svc (PipelineStart session_id topic) \<sigma> = pm_start session_id topic \<sigma>"
| "resume U svc (AwaitResearch a session_id topic) \<sigma> = pm_research U svc a session_id topic \<sigma>"
| "resume U svc (AwaitSolve a session_id topic research_result) \<sigma> =
     pm_solve U svc a session_id topic research_result \<sigma>"
| "resume U svc (AwaitImprove a original_solution fb topic) \<sigma> =
     (snd (hi_improve U svc a original_solution fb topic \<sigma>), None)"

fun step :: "ucd \<Rightarrow> event \<Rightarrow> server \<Rightarrow> server" where
  "step U (Chat req uuid) \<sigma> = snd (chat uuid req \<sigma>)"
| "step U (GetChat session_id) \<sigma> = \<sigma>"
| "step U (DeleteSession session_id) \<sigma> = snd (delete_session session_id \<sigma>)"
| "step U (HumanInput req) \<sigma> = snd (human_input U req \<sigma>)"
| "step U (Resume k svc) \<sigma> =
     (if k < length (tasks \<sigma>)
      then case resume U svc (tasks \<sigma> ! k) \<sigma> of (\<sigma>1, t) \<Rightarrow> set_task k t \<sigma>1
      else \<sigma>)"

definition run :: "ucd \<Rightarrow> event list \<Rightarrow> server \<Rightarrow> server" where
  "run U evs \<sigma> = foldl (\<lambda>\<sigma> e. step U e \<sigma>) \<sigma> evs"

section \<open>The knowledge retriever (kb_tool.py)\<close>

text \<open>
  The embedding service answers a POST with a response whose status check and whose JSON
  decoding may each raise; the vector index is reached through a client whose construction
  may raise, and its query returns matches that carry optional metadata.
\<close>

datatype json =
    JNull
  | JBool bool
  | JNumber int
  | JString str
  | JList "json list"
  | JObject "(str \<times> json) list"

record http_response =
  raise_for_status :: "py_exception option"
  json_body :: "py_exception + json"

record scored_match =
  match_id :: str
  metadata :: "(str \<times> str) list option"

record query_response =
  matches :: "scored_match list"

record rag_services =
  requests_post :: "str \<Rightarrow> py_exception + http_response"
  pinecone_index :: "string \<Rightarrow> py_exception + unit"
  index_query :: "string \<Rightarrow> json \<Rightarrow> nat \<Rightarrow> py_exception + query_response"

text \<open>
  \<^verbatim>\<open>embeddings[0] if isinstance(embeddings[0], list) else embeddings\<close>: subscripting an empty
  list or string, an object without the key, or a value that has no subscript raises.
\<close>

fun first_embedding :: "json \<Rightarrow> py_exception + json" where
  "first_embedding (JList []) = Inl (Exception (str_of ''IndexError''))"
| "first_embedding (JList (JList v # rest)) = Inr (JList v)"
| "first_embedding (JList (x # rest)) = Inr (JList (x # rest))"
| "first_embedding (JString []) = Inl (Exception (str_of ''IndexError''))"
| "first_embedding (JString (c # cs)) = Inr (JString (c # cs))"
| "first_embedding (JObject kvs) = Inl (Exception (str_of ''KeyError''))"
| "first_embedding j = Inl (Exception (str_of ''TypeError''))"

definition get_embeddings :: "rag_services \<Rightarrow> str \<Rightarrow> py_exception + json" where
  "get_embeddings svc query =
     (case requests_post svc query of
        Inl e \<Rightarrow> Inl e
      | Inr response \<Rightarrow>
          (case raise_for_status response of
             Some e \<Rightarrow> Inl e
           | None \<Rightarrow>
               (case json_body response of
                  Inl e \<Rightarrow> Inl e
                | Inr embeddings \<Rightarrow> first_embedding embeddings)))"

definition get_pinecone_index :: "rag_services \<Rightarrow> py_exception + unit" where
  "get_pinecone_index svc = pinecone_index svc ''math-docs''"

text \<open>\<^verbatim>\<open>res["metadata"]["text"]\<close> for each match, in order; the first failure ends the loop.\<close>

definition metadata_text :: "scored_match \<Rightarrow> py_exception + str" where
  "metadata_text res =
     (case metadata res of
        None \<Rightarrow> Inl (Exception (str_of ''TypeError''))
      | Some md \<Rightarrow>
          (case map_of md (str_of ''text'') of
             None \<Rightarrow> Inl (Exception (str_of ''KeyError''))
           | Some txt \<Rightarrow> Inr txt))"

fun metadata_texts :: "scored_match list \<Rightarrow> py_exception + str list" where
  "metadata_texts [] = Inr []"
| "metadata_texts (res # rest) =
     (case metadata_text res of
        Inl e \<Rightarrow> Inl e
      | Inr txt \<Rightarrow> (case metadata_texts rest of Inl e \<Rightarrow> Inl e | Inr txts \<Rightarrow> Inr (txt # txts)))"

text \<open>The body of the \<^verbatim>\<open>try\<close>, and the function with its handler.\<close>

definition retrieve_attempt :: "rag_services \<Rightarrow> str \<Rightarrow> py_exception + str list" where
  "retrieve_attempt svc query =
     (case get_embeddings svc query of
        Inl e \<Rightarrow> Inl e
      | Inr vectorized_query \<Rightarrow>
          (case get_pinecone_index svc of
             Inl e \<Rightarrow> Inl e
           | Inr index \<Rightarrow>
               (case index_query svc ''engg-math-1'' vectorized_query 3 of
                  Inl e \<Rightarrow> Inl e
                | Inr search_result \<Rightarrow> metadata_texts (matches search_result))))"

definition retrieve_data_from_db :: "rag_services \<Rightarrow> str \<Rightarrow> py_exception + str list" where
  "retrieve_data_from_db svc query =
     (case retrieve_attempt svc query of Inl e \<Rightarrow> Inr [] | Inr snippets \<Rightarrow> Inr snippets)"

text \<open>What the index promises for \<^verbatim>\<open>top_k\<close>: never more matches than asked for.\<close>

definition honours_top_k :: "rag_services \<Rightarrow> bool" where
  "honours_top_k svc \<longleftrightarrow>
     (\<forall>ns v k r. index_query svc ns v k = Inr r \<longrightarrow> length (matches r) \<le> k)"

section \<open>Auxiliary notions for the statements\<close>

text \<open>
  A character table is compatible with ASCII if, on code points below 128, it lowers,
  classifies and compares as ASCII does. The interpreter's tables are.
\<close>

definition is_ascii :: "str \<Rightarrow> bool" where
  "is_ascii s = list_all (\<lambda>c. c < 128) s"

definition ascii_compatible :: "ucd \<Rightarrow> bool" where
  "ascii_compatible U \<longleftrightarrow>
     (\<forall>c. c < 128 \<longrightarrow> is_decimal U c = ascii_digit c \<and> is_word U c = ascii_word c) \<and>
     (\<forall>c d. c < 128 \<longrightarrow> d < 128 \<longrightarrow> ci_equal U c d = (ascii_lower c = ascii_lower d)) \<and>
     (\<forall>s. is_ascii s \<longrightarrow> lower_of U s = map ascii_lower s)"

text \<open>A pattern all of whose case-insensitive literals are ASCII.\<close>

primrec ascii_regex :: "regex \<Rightarrow> bool" where
  "ascii_regex Eps = True"
| "ascii_regex (Chr c) = True"
| "ascii_regex (IChr c) = (c < 128)"
| "ascii_regex (Cls items) = True"
| "ascii_regex (NCls items) = True"
| "ascii_regex Digit = True"
| "ascii_regex Space = True"
| "ascii_regex WordB = True"
| "ascii_regex (Seq a b) = (ascii_regex a \<and> ascii_regex b)"
| "ascii_regex (Alt a b) = (ascii_regex a \<and> ascii_regex b)"
| "ascii_regex (Opt a) = ascii_regex a"
| "ascii_regex (Star a) = ascii_regex a"
| "ascii_regex (Plus a) = ascii_regex a"
| "ascii_regex (Grp n a) = ascii_regex a"

text \<open>The text stays ASCII through a list of substitutions (computed with the ASCII table).\<close>

fun stays_ascii :: "(regex \<times> tpl_item list) list \<Rightarrow> str \<Rightarrow> bool" where
  "stays_ascii [] s = is_ascii s"
| "stays_ascii ((p, r) # rest) s =
     (is_ascii s \<and> ascii_regex p \<and> stays_ascii rest (re_sub ascii_ucd p r s))"

text \<open>Services in which every call succeeds and every agent and model answers \<open>answer\<close>.\<close>

definition canned_services :: "str \<Rightarrow> services" where
  "canned_services answer =
     \<lparr> load_mcp_tools = Inr [''websearch_tool''],
       new_function_agent = (\<lambda>name tools. Inr (FunctionAgent name tools)),
       agent_run = (\<lambda>a prompt. Inr answer),
       llm_acomplete = (\<lambda>prompt. Inr answer) \<rparr>"

text \<open>
  A short execution: a new session for the topic \<^verbatim>\<open>2+2\<close> whose pipeline task is resumed
  three times, every agent answering \<^verbatim>\<open>4\<close>. It ends with the session awaiting approval.
\<close>

definition demo_id :: str where
  "demo_id = str_of ''0f8c2a''"

definition demo_pipeline :: "event list" where
  "demo_pipeline =
     [Chat \<lparr> req_topic = str_of ''2+2'', req_session_id = None \<rparr> demo_id,
      Resume 0 (canned_services (str_of ''4'')),
      Resume 0 (canned_services (str_of ''4'')),
      Resume 0 (canned_services (str_of ''4''))]"

text \<open>
  The same execution followed by two overlapping feedback requests: a request for a
  revision, then an approval that is handled while the Revise stage of the first is
  pending, then the resumption of the first. It ends with the session in status
  \<^verbatim>\<open>waiting_for_approval\<close> and its flag cleared.
\<close>

definition demo_race :: "event list" where
  "demo_race =
     demo_pipeline @
     [HumanInput \<lparr>hi_session_id = demo_id, feedback = str_of ''show more steps''\<rparr>,
      HumanInput \<lparr>hi_session_id = demo_id, feedback = str_of ''approve''\<rparr>,
      Resume 0 (canned_services (str_of ''2 + 2 = 4''))]"

text \<open>A retrieval backend that works: a two-dimensional embedding, an index of two chunks.\<close>

definition canned_rag :: rag_services where
  "canned_rag =
     \<lparr> requests_post = (\<lambda>query. Inr \<lparr> raise_for_status = None,
                                       json_body = Inr (JList [JList [JNumber 1, JNumber 0]]) \<rparr>),
       pinecone_index = (\<lambda>name. Inr ()),
       index_query = (\<lambda>ns v k. Inr \<lparr> matches = take k
          [\<lparr> match_id = str_of ''chunk-0'', metadata = Some [(str_of ''text'', str_of ''A matrix is a rectangular array.'')] \<rparr>,
           \<lparr> match_id = str_of ''chunk-1'', metadata = Some [(str_of ''text'', str_of ''The determinant of a 2x2 matrix.'')] \<rparr>] \<rparr>) \<rparr>"

text \<open>A retrieval backend whose embedding service is unreachable.\<close>

definition broken_rag :: rag_services where
  "broken_rag = canned_rag\<lparr> requests_post := (\<lambda>query. Inl (Exception (str_of ''ConnectionError''))) \<rparr>"

text \<open>Properties of one session, and of all session objects of a server state.\<close>

definition flag_sound :: "session \<Rightarrow> bool" where
  "flag_sound s \<longleftrightarrow> (waiting_for_approval s \<longrightarrow> current_solution s \<noteq> None)"

definition flag_exact :: "session \<Rightarrow> bool" where
  "flag_exact s \<longleftrightarrow>
     (waiting_for_approval s \<longleftrightarrow> current_solution s \<noteq> None) \<and>
     (status s = ''waiting_for_approval'' \<longrightarrow> waiting_for_approval s)"

definition solution_shown :: "session \<Rightarrow> bool" where
  "solution_shown s \<longleftrightarrow>
     (case current_solution s of
        None \<Rightarrow> True
      | Some x \<Rightarrow> list_ex (\<lambda>m. str_in x (content m)) (messages s))"

definition sess_ok :: "session \<Rightarrow> bool" where
  "sess_ok s \<longleftrightarrow> flag_sound s \<and> solution_shown s"

definition heap_all :: "(session \<Rightarrow> bool) \<Rightarrow> server \<Rightarrow> bool" where
  "heap_all P \<sigma> = list_all P (heap \<sigma>)"

text \<open>Every address held by the dictionary or by a pending task is that of an object.\<close>

fun task_ok :: "nat \<Rightarrow> task \<Rightarrow> bool" where
  "task_ok n (PipelineStart session_id topic) = True"
| "task_ok n (AwaitResearch a session_id topic) = (a < n)"
| "task_ok n (AwaitSolve a session_id topic research_result) = (a < n)"
| "task_ok n (AwaitImprove a original_solution fb topic) = (a < n)"

definition wf :: "server \<Rightarrow> bool" where
  "wf \<sigma> \<longleftrightarrow>
     (\<forall>sid a. sessions \<sigma> sid = Some a \<longrightarrow> a < length (heap \<sigma>)) \<and>
     list_all (task_ok (length (heap \<sigma>))) (tasks \<sigma>)"

text \<open>
  Feedback requests for one session overlap when one arrives while the Revise stage of an
  earlier one is still pending. An execution is serial in its feedback if that never
  happens; the source does nothing to prevent it.
\<close>

fun improving :: "nat \<Rightarrow> task \<Rightarrow> bool" where
  "improving a (AwaitImprove b original_solution fb topic) = (a = b)"
| "improving a t = False"

definition feedback_pending :: "server \<Rightarrow> nat \<Rightarrow> bool" where
  "feedback_pending \<sigma> a = list_ex (improving a) (tasks \<sigma>)"

fun enabled :: "event \<Rightarrow> server \<Rightarrow> bool" where
  "enabled (HumanInput req) \<sigma> =
     (case sessions \<sigma> (hi_session_id req) of
        None \<Rightarrow> True
      | Some a \<Rightarrow> \<not> feedback_pending \<sigma> a)"
| "enabled e \<sigma> = True"

fun serial_feedback :: "ucd \<Rightarrow> event list \<Rightarrow> server \<Rightarrow> bool" where
  "serial_feedback U [] \<sigma> = True"
| "serial_feedback U (e # es) \<sigma> = (enabled e \<sigma> \<and> serial_feedback U es (step U e \<sigma>))"

definition pending_flagged :: "server \<Rightarrow> bool" where
  "pending_flagged \<sigma> \<longleftrightarrow>
     (\<forall>a. feedback_pending \<sigma> a \<longrightarrow> waiting_for_approval (heap \<sigma> ! a))"

definition serial_inv :: "server \<Rightarrow> bool" where
  "serial_inv \<sigma> \<longleftrightarrow> wf \<sigma> \<and> heap_all flag_exact \<sigma> \<and> pending_flagged \<sigma>"

section \<open>Properties of the guardrails\<close>

subsection \<open>Stripping and containment\<close>

lemma sublist_dropWhile_keep:
  assumes "m \<noteq> []" "\<not> P (hd m)" "sublist m xs"
  shows "sublist m (dropWhile P xs)"
proof -
  from assms(3) obtain ps ss where xs: "xs = ps @ m @ ss" by (auto simp: sublist_def)
  from assms(1) obtain a m' where m: "m = a # m'" by (cases m) auto
  with assms(2) have "\<not> P a" by simp
  then have "dropWhile P xs = dropWhile P ps @ a # (m' @ ss)"
    unfolding xs m by (simp add: dropWhile_append3)
  then show ?thesis unfolding m sublist_def by (metis append_Cons)
qed

lemma str_in_strip:
  assumes "m \<noteq> []" "\<not> isspace (hd m)" "\<not> isspace (last m)" "str_in m xs"
  shows "str_in m (strip xs)"
proof -
  have "sublist (rev m) (rev xs)" using assms(4) by (simp add: str_in_def)
  then have "sublist (rev m) (dropWhile isspace (rev xs))"
    using assms(1,3) by (intro sublist_dropWhile_keep) (simp_all add: hd_rev)
  then have "sublist m (rstrip xs)"
    unfolding rstrip_def by (metis rev_rev_ident sublist_rev)
  then show ?thesis
    unfolding strip_def lstrip_def str_in_def using assms(1,2) by (intro sublist_dropWhile_keep)
qed

lemma strip_blank:
  assumes "list_all isspace s"
  shows "strip s = []"
proof -
  have *: "dropWhile isspace (rev s) = []"
    using assms by (simp add: dropWhile_eq_Nil_conv list_all_iff)
  show ?thesis unfolding strip_def lstrip_def rstrip_def * by simp
qed

lemma indicators_trimmed:
  "list_all (\<lambda>w. w \<noteq> [] \<and> \<not> isspace (hd w) \<and> \<not> isspace (last w)) NON_MATH_INDICATORS"
  by code_simp

lemma keywords_trimmed:
  "list_all (\<lambda>w. w \<noteq> [] \<and> \<not> isspace (hd w) \<and> \<not> isspace (last w)) MATH_KEYWORDS"
  by code_simp

lemma sublist_strip: "sublist (strip xs) xs"
proof -
  have "suffix (dropWhile isspace (rev xs)) (rev xs)" by (rule suffix_dropWhile)
  then have "sublist (dropWhile isspace (rev xs)) (rev xs)" by (rule suffix_imp_sublist)
  then have "sublist (rstrip xs) xs"
    unfolding rstrip_def by (metis rev_rev_ident sublist_rev)
  moreover have "sublist (strip xs) (rstrip xs)"
    unfolding strip_def lstrip_def by (intro suffix_imp_sublist suffix_dropWhile)
  ultimately show ?thesis by (rule sublist_order.order.trans[rotated])
qed

lemma str_in_strip_imp: "str_in m (strip xs) \<Longrightarrow> str_in m xs"
  unfolding str_in_def using sublist_strip sublist_order.order.trans by blast

lemma strip_nonblank:
  assumes "\<not> list_all isspace s"
  shows "s \<noteq> [] \<and> strip s \<noteq> []"
proof -
  from assms obtain c where c: "c \<in> set s" "\<not> isspace c" by (auto simp: list_all_iff)
  then obtain ps ss where "s = ps @ [c] @ ss" by (auto dest: split_list)
  then have "str_in [c] s" unfolding str_in_def sublist_def by blast
  with c(2) have "str_in [c] (strip s)" by (intro str_in_strip) simp_all
  then have "strip s \<noteq> []" by (auto simp: str_in_def)
  with c(1) show ?thesis by auto
qed


subsection \<open>The validator\<close>

text \<open>
  Claim C2, as stated: every input that contains a math keyword (case-insensitively) or
  matches a math pattern is valid, with no further precondition. The source rejects
  non-math indicator phrases first, so the input below, which contains the keywords
  \<^verbatim>\<open>solve\<close> and \<^verbatim>\<open>equation\<close> and the indicator \<^verbatim>\<open>weather\<close>, is invalid.
\<close>

theorem keyword_input_rejected: "has_math_keywords (strip (lower_of ascii_ucd (str_of ''solve the weather equation''))) \<and>
   fst (validate_math_input ascii_ucd (str_of ''solve the weather equation'')) = False"
  by code_simp


text \<open>
  Claim C2, amended: every input that is not blank, contains no non-math indicator phrase
  (case-insensitively), and either contains a math keyword (case-insensitively) or whose
  lowered, stripped text matches a math pattern, is valid, with the message of the
  acceptance branch.
\<close>

theorem validate_accepts:
  assumes "\<not> list_all isspace topic"
    and "\<not> (\<exists>indicator \<in> set NON_MATH_INDICATORS. str_in indicator (lower_of U topic))"
    and "(\<exists>keyword \<in> set MATH_KEYWORDS. str_in keyword (lower_of U topic)) \<or>
         has_math_patterns U (strip (lower_of U topic))"
  shows "validate_math_input U topic = (True, msg_valid)"
proof -
  have nonblank: "topic \<noteq> []" "strip topic \<noteq> []"
    using assms(1) strip_nonblank by blast+
  have no_ind: "\<not> has_non_math_indicator (strip (lower_of U topic))"
    using assms(2) by (auto simp: has_non_math_indicator_def list_ex_iff dest: str_in_strip_imp)
  have "has_math_keywords (strip (lower_of U topic)) \<or> has_math_patterns U (strip (lower_of U topic))"
    using assms(3)
  proof
    assume "\<exists>keyword \<in> set MATH_KEYWORDS. str_in keyword (lower_of U topic)"
    then obtain keyword where k: "keyword \<in> set MATH_KEYWORDS" "str_in keyword (lower_of U topic)"
      by blast
    from k(1) keywords_trimmed
    have "keyword \<noteq> [] \<and> \<not> isspace (hd keyword) \<and> \<not> isspace (last keyword)"
      by (simp add: list_all_iff)
    with k(2) have "str_in keyword (strip (lower_of U topic))" by (simp add: str_in_strip)
    with k(1) show ?thesis by (auto simp: has_math_keywords_def list_ex_iff)
  qed simp
  with nonblank no_ind show ?thesis by (simp add: validate_math_input_def)
qed

theorem validate_accepts_witness:
  "\<not> list_all isspace (str_of ''Solve 2x + 3 = 7'') \<and>
   \<not> (\<exists>indicator \<in> set NON_MATH_INDICATORS. str_in indicator (lower_of ascii_ucd (str_of ''Solve 2x + 3 = 7''))) \<and>
   (\<exists>keyword \<in> set MATH_KEYWORDS. str_in keyword (lower_of ascii_ucd (str_of ''Solve 2x + 3 = 7''))) \<and>
   validate_math_input ascii_ucd (str_of ''Solve 2x + 3 = 7'') = (True, msg_valid)"
proof -
  have a: "\<not> list_all isspace (str_of ''Solve 2x + 3 = 7'')" by code_simp
  have b: "\<not> (\<exists>indicator \<in> set NON_MATH_INDICATORS. str_in indicator (lower_of ascii_ucd (str_of ''Solve 2x + 3 = 7'')))"
    by code_simp
  have c: "\<exists>keyword \<in> set MATH_KEYWORDS. str_in keyword (lower_of ascii_ucd (str_of ''Solve 2x + 3 = 7''))"
    by code_simp
  from validate_accepts[OF a b disjI1[OF c]] a b c show ?thesis by blast
qed


text \<open>
  Claim C3: an input that is empty, consists of whitespace, or contains a non-math
  indicator phrase (case-insensitively) is invalid, whatever else it contains: the two
  rejections come before the keyword and pattern checks. The result is one of the two
  rejection answers.
\<close>

theorem validate_rejects_non_math:
  assumes "topic = [] \<or> list_all isspace topic \<or>
           (\<exists>indicator \<in> set NON_MATH_INDICATORS. str_in indicator (lower_of U topic))"
  shows "validate_math_input U topic = (False, msg_empty) \<or>
         validate_math_input U topic = (False, msg_non_math)"
proof (cases "topic = [] \<or> strip topic = []")
  case True
  then show ?thesis by (simp add: validate_math_input_def)
next
  case False
  with assms strip_blank obtain indicator where
    ind: "indicator \<in> set NON_MATH_INDICATORS" "str_in indicator (lower_of U topic)" by blast
  from ind(1) indicators_trimmed
  have "indicator \<noteq> [] \<and> \<not> isspace (hd indicator) \<and> \<not> isspace (last indicator)"
    by (simp add: list_all_iff)
  with ind(2) have "str_in indicator (strip (lower_of U topic))"
    by (simp add: str_in_strip)
  with ind(1) have "has_non_math_indicator (strip (lower_of U topic))"
    by (auto simp: has_non_math_indicator_def list_ex_iff)
  with False show ?thesis by (simp add: validate_math_input_def)
qed

theorem validate_rejects_non_math_witness:
  "(\<exists>indicator \<in> set NON_MATH_INDICATORS.
      str_in indicator (lower_of ascii_ucd (str_of ''Calculate the area of a MOVIE screen''))) \<and>
   has_math_keywords (strip (lower_of ascii_ucd (str_of ''Calculate the area of a MOVIE screen''))) \<and>
   validate_math_input ascii_ucd (str_of ''Calculate the area of a MOVIE screen'') = (False, msg_non_math)"
proof -
  have h: "\<exists>indicator \<in> set NON_MATH_INDICATORS.
      str_in indicator (lower_of ascii_ucd (str_of ''Calculate the area of a MOVIE screen''))"
    by code_simp
  have k: "has_math_keywords (strip (lower_of ascii_ucd (str_of ''Calculate the area of a MOVIE screen'')))"
    by code_simp
  have n: "msg_empty \<noteq> msg_non_math" by code_simp
  have "validate_math_input ascii_ucd (str_of ''Calculate the area of a MOVIE screen'') = (False, msg_empty) \<or>
        validate_math_input ascii_ucd (str_of ''Calculate the area of a MOVIE screen'') = (False, msg_non_math)"
    using h by (intro validate_rejects_non_math) blast
  moreover have "snd (validate_math_input ascii_ucd (str_of ''Calculate the area of a MOVIE screen'')) \<noteq> msg_empty"
    by code_simp
  ultimately show ?thesis using h k by auto
qed


subsection \<open>The formatter\<close>

text \<open>
  On ASCII text with patterns whose case-insensitive literals are ASCII, the matcher does
  not depend on the character table beyond ASCII, and neither does substitution.
\<close>

lemma one_char_cong: "(\<And>c. c \<in> set s \<Longrightarrow> p c = q c) \<Longrightarrow> one_char p s st = one_char q s st"
  by (auto simp: one_char_def)

lemma ms_ascii:
  assumes "ascii_compatible U" "is_ascii s" "ascii_regex r"
  shows "ms r U s = ms r ascii_ucd s"
  using assms(3)
proof (induction r)
  case (IChr c)
  have "one_char (ci_equal U c) s st = one_char (ci_equal ascii_ucd c) s st" for st
    using assms(1,2) IChr
    by (intro one_char_cong) (auto simp: ascii_compatible_def is_ascii_def list_all_iff ascii_ucd_def)
  then show ?case by (auto simp: fun_eq_iff)
next
  case Digit
  have "one_char (is_decimal U) s st = one_char (is_decimal ascii_ucd) s st" for st
    using assms(1,2)
    by (intro one_char_cong) (auto simp: ascii_compatible_def is_ascii_def list_all_iff ascii_ucd_def)
  then show ?case by (auto simp: fun_eq_iff)
next
  case WordB
  have "word_boundary U s i = word_boundary ascii_ucd s i" for i
  proof -
    have w: "is_word U (s ! j) = ascii_word (s ! j)" if "j < length s" for j
      using assms(1,2) that by (auto simp: ascii_compatible_def is_ascii_def list_all_iff)
    show ?thesis
      by (cases "i = 0"; cases "i < length s"; cases "i = length s")
         (auto simp: word_boundary_def w ascii_ucd_def)
  qed
  then show ?case by (auto simp: fun_eq_iff)
qed (rule ext, simp)+

lemma sub_from_cong:
  assumes "ms r U s = ms r V s"
  shows "sub_from U r tpl s i = sub_from V r tpl s i"
  using assms
proof (induction U r tpl s i rule: sub_from.induct)
  case (1 U r tpl s i)
  show ?case
    apply (subst sub_from.simps[of U])
    apply (subst sub_from.simps[of V])
    using 1 by (auto split: list.splits)
qed

lemma foldl_sub_ascii:
  assumes "ascii_compatible U" "stays_ascii rs s"
  shows "foldl (\<lambda>formatted (pattern, replacement). re_sub U pattern replacement formatted) s rs =
         foldl (\<lambda>formatted (pattern, replacement). re_sub ascii_ucd pattern replacement formatted) s rs"
  using assms(2)
proof (induction rs arbitrary: s)
  case Nil
  then show ?case by simp
next
  case (Cons pr rs)
  obtain p r where pr: "pr = (p, r)" by (cases pr)
  from Cons.prems have a: "is_ascii s" "ascii_regex p" "stays_ascii rs (re_sub ascii_ucd p r s)"
    by (simp_all add: pr)
  have "re_sub U p r s = re_sub ascii_ucd p r s"
    unfolding re_sub_def by (intro sub_from_cong ms_ascii assms(1) a)
  with Cons.IH[OF a(3)] show ?case by (simp add: pr)
qed

text \<open>
  Claim C8: \<open>format_math_output\<close> applied to \<^verbatim>\<open>3/4 + x^2\<close> gives \<^verbatim>\<open>\frac{3}{4} + x^{2}\<close>
  (92 is the backslash), which contains the fraction markup and the braced exponent: the
  fraction rule runs first, and the exponent rules leave \<^verbatim>\<open>\frac{3}{4}\<close> alone. This holds for
  every character table compatible with ASCII.
\<close>

theorem format_fraction_exponent:
  assumes "ascii_compatible U"
  shows "format_math_output U (str_of ''3/4 + x^2'') = 92 # str_of ''frac{3}{4} + x^{2}'' \<and>
         str_in (92 # str_of ''frac{3}{4}'') (format_math_output U (str_of ''3/4 + x^2'')) \<and>
         str_in (str_of ''x^{2}'') (format_math_output U (str_of ''3/4 + x^2''))"
proof -
  have a: "stays_ascii REPLACEMENTS (str_of ''3/4 + x^2'')" by code_simp
  have b: "format_math_output ascii_ucd (str_of ''3/4 + x^2'') = 92 # str_of ''frac{3}{4} + x^{2}''"
    by code_simp
  have c: "str_in (92 # str_of ''frac{3}{4}'') (92 # str_of ''frac{3}{4} + x^{2}'')"
    "str_in (str_of ''x^{2}'') (92 # str_of ''frac{3}{4} + x^{2}'')"
    by code_simp+
  have n: "str_of ''3/4 + x^2'' \<noteq> []" by code_simp
  have "format_math_output U (str_of ''3/4 + x^2'') = format_math_output ascii_ucd (str_of ''3/4 + x^2'')"
    unfolding format_math_output_def using foldl_sub_ascii[OF assms a] n by simp
  with b c show ?thesis by simp
qed

theorem format_fraction_exponent_witness:
  "ascii_compatible ascii_ucd \<and>
   format_math_output ascii_ucd (str_of ''3/4 + x^2'') = 92 # str_of ''frac{3}{4} + x^{2}''"
proof -
  have a: "ascii_compatible ascii_ucd" by (simp add: ascii_compatible_def ascii_ucd_def)
  from format_fraction_exponent[OF a] a show ?thesis by blast
qed

section \<open>Properties of the stages\<close>

lemma improve_fallback_calls:
  "list_ex is_model_call (fst (snd (improve_fallback U svc self calls sol fb topic)))"
  by (simp add: improve_fallback_def Let_def split: sum.splits py_exception.splits)

lemma improve_solution_calls:
  "list_ex is_model_call (fst (snd (improve_solution U svc self sol fb topic)))"
  by (simp add: improve_solution_def Let_def improve_fallback_calls
      split: prod.splits option.splits sum.splits)

lemma research_topic_invalid:
  "\<not> fst (validate_math_input U topic) \<Longrightarrow>
   research_topic U svc self topic = (self, [], Inr (snd (validate_math_input U topic)))"
  by (cases "validate_math_input U topic") (simp add: research_topic_def)

lemma solve_problem_invalid:
  "\<not> fst (validate_math_input U topic) \<Longrightarrow>
   solve_problem U svc self topic ctx = (self, [], Inr (snd (validate_math_input U topic)))"
  by (cases "validate_math_input U topic") (simp add: solve_problem_def)

text \<open>
  Claim C6: the stages and the validator. \<open>research_topic\<close> and \<open>solve_problem\<close> each
  validate the topic first; for a topic the validator rejects they return the validator's
  message, make no call at all (no agent is created or run, no model is asked) and leave the
  agent object as it was, whatever the services would answer. \<open>improve_solution\<close> performs
  no such validation: for every topic, also a rejected one, it reaches an agent or the
  language model. So the guard covers all stages but Revise, which is the asymmetry the
  claim names.
\<close>

theorem stages_guard:
  assumes "\<not> fst (validate_math_input U topic)"
  shows "research_topic U svc self topic = (self, [], Inr (snd (validate_math_input U topic))) \<and>
         solve_problem U svc self topic ctx =
           (self, [], Inr (snd (validate_math_input U topic))) \<and>
         list_ex is_model_call (fst (snd (improve_solution U svc self original_solution fb topic)))"
proof -
  obtain message where "validate_math_input U topic = (False, message)"
    using assms by (cases "validate_math_input U topic") simp
  then show ?thesis
    by (simp add: research_topic_def solve_problem_def improve_solution_calls)
qed

theorem stages_guard_witness:
  "\<not> fst (validate_math_input ascii_ucd (str_of ''tell me a joke'')) \<and>
   research_topic ascii_ucd (canned_services (str_of ''42'')) new_mathematical_agent (str_of ''tell me a joke'') =
     (new_mathematical_agent, [], Inr msg_non_math) \<and>
   solve_problem ascii_ucd (canned_services (str_of ''42'')) new_mathematical_agent (str_of ''tell me a joke'') (str_of ''context'') =
     (new_mathematical_agent, [], Inr msg_non_math)"
proof -
  have v: "validate_math_input ascii_ucd (str_of ''tell me a joke'') = (False, msg_non_math)"
    by code_simp
  then have h: "\<not> fst (validate_math_input ascii_ucd (str_of ''tell me a joke''))" by simp
  from stages_guard[OF h, of "canned_services (str_of ''42'')" new_mathematical_agent "str_of ''context''"]
  show ?thesis using v by simp
qed

text \<open>
  The asymmetry at a concrete topic: the validator rejects \<^verbatim>\<open>tell me a joke\<close>, and
  \<open>improve_solution\<close> still creates the agents, runs the solver agent on the revision
  prompt and returns its answer.
\<close>

theorem improve_unguarded:
  "\<not> fst (validate_math_input ascii_ucd (str_of ''tell me a joke'')) \<and>
   improve_solution ascii_ucd (canned_services (str_of ''Knock knock.'')) new_mathematical_agent
       (str_of ''x = 1'') (str_of ''make it funny'') (str_of ''tell me a joke'') =
     (\<lparr> research_agent = Some (FunctionAgent ''MathResearchAgent'' [''rag_knowledge_search'', ''websearch_tool'']),
        math_agent = Some (FunctionAgent ''MathSolverAgent'' []), tools_initialized = True \<rparr>,
      [LoadMcpTools, NewFunctionAgent ''MathResearchAgent'', NewFunctionAgent ''MathSolverAgent'',
       AgentRun (FunctionAgent ''MathSolverAgent'' [])
         (improve_prompt (str_of ''x = 1'') (str_of ''make it funny'') (str_of ''tell me a joke''))],
      Inr (str_of ''Knock knock.''))"
proof -
  have a: "\<not> fst (validate_math_input ascii_ucd (str_of ''tell me a joke''))" by code_simp
  have b: "format_math_output ascii_ucd (str_of ''Knock knock.'') = str_of ''Knock knock.''"
    by code_simp
  show ?thesis using a
    by (simp add: improve_solution_def create_agents_def canned_services_def get_mcp_tools_def
        new_mathematical_agent_def Let_def b)
qed

section \<open>Properties of the retriever\<close>

lemma metadata_texts_length: "metadata_texts rs = Inr txts \<Longrightarrow> length txts = length rs"
  by (induction rs arbitrary: txts) (auto split: sum.splits)

lemma metadata_texts_from_metadata:
  "metadata_texts rs = Inr txts \<Longrightarrow>
   list_all2 (\<lambda>m t. \<exists>md. metadata m = Some md \<and> map_of md (str_of ''text'') = Some t) rs txts"
  by (induction rs arbitrary: txts)
     (auto simp: metadata_text_def split: sum.splits option.splits)

text \<open>
  Claim C7: for every query the retriever returns a list and never an exception; any
  failure inside the \<^verbatim>\<open>try\<close> (embedding call, index client, index query, metadata
  extraction) gives the empty list; otherwise the list holds the \<^verbatim>\<open>text\<close> entries of the
  matches' metadata, in order. The source asks the index for \<^verbatim>\<open>top_k=3\<close> and does not
  truncate, so the bound of three rests on the index returning no more than it was asked for.
\<close>

theorem retrieve_contract:
  assumes "honours_top_k svc"
  shows "\<exists>snippets. retrieve_data_from_db svc query = Inr snippets \<and> length snippets \<le> 3 \<and>
           (\<forall>e. retrieve_attempt svc query = Inl e \<longrightarrow> snippets = []) \<and>
           (snippets = [] \<or>
            (\<exists>v r. get_embeddings svc query = Inr v \<and> index_query svc ''engg-math-1'' v 3 = Inr r \<and>
               list_all2 (\<lambda>m t. \<exists>md. metadata m = Some md \<and> map_of md (str_of ''text'') = Some t)
                 (matches r) snippets))"
proof (cases "retrieve_attempt svc query")
  case (Inl e)
  then show ?thesis by (simp add: retrieve_data_from_db_def)
next
  case (Inr found)
  then obtain v r where v: "get_embeddings svc query = Inr v"
    and r: "index_query svc ''engg-math-1'' v 3 = Inr r"
    and t: "metadata_texts (matches r) = Inr found"
    by (auto simp: retrieve_attempt_def split: sum.splits)
  from assms r have "length (matches r) \<le> 3" unfolding honours_top_k_def by blast
  with t have "length found \<le> 3" by (simp add: metadata_texts_length)
  moreover from t have "list_all2 (\<lambda>m t. \<exists>md. metadata m = Some md \<and> map_of md (str_of ''text'') = Some t) (matches r) found"
    by (rule metadata_texts_from_metadata)
  ultimately show ?thesis using Inr v r by (auto simp: retrieve_data_from_db_def)
qed

theorem retrieve_contract_witness:
  "honours_top_k canned_rag \<and> honours_top_k broken_rag \<and>
   retrieve_data_from_db canned_rag (str_of ''matrix'') =
     Inr [str_of ''A matrix is a rectangular array.'', str_of ''The determinant of a 2x2 matrix.''] \<and>
   retrieve_data_from_db broken_rag (str_of ''matrix'') = Inr []"
proof -
  have a: "honours_top_k canned_rag" by (simp add: honours_top_k_def canned_rag_def)
  have b: "honours_top_k broken_rag" by (simp add: honours_top_k_def canned_rag_def broken_rag_def)
  have f: "retrieve_attempt broken_rag (str_of ''matrix'') = Inl (Exception (str_of ''ConnectionError''))"
    by (simp add: retrieve_attempt_def get_embeddings_def broken_rag_def)
  have g: "retrieve_attempt canned_rag (str_of ''matrix'') =
     Inr [str_of ''A matrix is a rectangular array.'', str_of ''The determinant of a 2x2 matrix.'']"
    by (simp add: retrieve_attempt_def get_embeddings_def get_pinecone_index_def canned_rag_def
         metadata_text_def)
  from retrieve_contract[OF b, of "str_of ''matrix''"] f
  have "retrieve_data_from_db broken_rag (str_of ''matrix'') = Inr []" by auto
  moreover from retrieve_contract[OF a, of "str_of ''matrix''"] g
  have "retrieve_data_from_db canned_rag (str_of ''matrix'') =
     Inr [str_of ''A matrix is a rectangular array.'', str_of ''The determinant of a 2x2 matrix.'']"
    by (auto simp: retrieve_data_from_db_def)
  ultimately show ?thesis using a b by simp
qed

section \<open>Properties of the handlers\<close>

text \<open>
  Claim C9: a POST /chat request with a session id that is not in the store is not an
  error. The handler creates a new session under the freshly generated identifier and
  answers with that identifier and status \<^verbatim>\<open>processing\<close>; the supplied id occurs nowhere
  in the answer or in the new state.
\<close>

theorem chat_unknown_session:
  assumes "req_session_id req = Some sid" "sessions \<sigma> sid = None"
  shows "chat uuid req \<sigma> =
     (Inr \<lparr> resp_session_id = uuid, resp_status = ''processing'',
             resp_messages = [\<lparr>role = ''user'', content = req_topic req\<rparr>] \<rparr>,
      \<sigma>\<lparr> heap := heap \<sigma> @ [new_session (req_topic req)],
         sessions := (sessions \<sigma>)(uuid \<mapsto> length (heap \<sigma>)),
         tasks := tasks \<sigma> @ [PipelineStart uuid (req_topic req)] \<rparr>)"
  using assms by (simp add: chat_def Let_def new_session_def)

theorem chat_unknown_session_witness:
  "sessions init (str_of ''no-such-session'') = None \<and>
   chat (str_of ''0f8c2a'') \<lparr> req_topic = str_of ''2+2'', req_session_id = Some (str_of ''no-such-session'') \<rparr> init =
     (Inr \<lparr> resp_session_id = str_of ''0f8c2a'', resp_status = ''processing'',
             resp_messages = [\<lparr>role = ''user'', content = str_of ''2+2''\<rparr>] \<rparr>,
      \<lparr> sessions = [str_of ''0f8c2a'' \<mapsto> 0], heap = [new_session (str_of ''2+2'')],
        tasks = [PipelineStart (str_of ''0f8c2a'') (str_of ''2+2'')] \<rparr>)"
proof -
  have h: "sessions init (str_of ''no-such-session'') = None" by (simp add: init_def)
  show ?thesis
    using h chat_unknown_session[of "\<lparr> req_topic = str_of ''2+2'', req_session_id = Some (str_of ''no-such-session'') \<rparr>"
        "str_of ''no-such-session''" init "str_of ''0f8c2a''"]
    by (simp add: init_def)
qed

text \<open>
  Claim C10: for a topic the validator rejects, POST /chat still creates the session, and
  the pipeline task, resumed three times, takes it through \<^verbatim>\<open>researching\<close> and \<^verbatim>\<open>solving\<close>
  to \<^verbatim>\<open>waiting_for_approval\<close> with the rejection message as research context and as current
  solution; the status \<^verbatim>\<open>error\<close> is never set. This holds whatever the services would
  answer, since no stage calls them.
\<close>

theorem rejected_topic_pipeline:
  assumes invalid: "\<not> fst (validate_math_input U topic)"
    and fresh: "\<forall>sid. req_session_id req = Some sid \<longrightarrow> sessions \<sigma> sid = None"
    and topic: "req_topic req = topic"
  shows "let k = length (tasks \<sigma>); a = length (heap \<sigma>);
             \<sigma>1 = step U (Chat req uuid) \<sigma>;
             \<sigma>2 = step U (Resume k svc1) \<sigma>1;
             \<sigma>3 = step U (Resume k svc2) \<sigma>2;
             \<sigma>4 = step U (Resume k svc3) \<sigma>3
         in fst (chat uuid req \<sigma>) =
              Inr \<lparr> resp_session_id = uuid, resp_status = ''processing'',
                    resp_messages = [\<lparr>role = ''user'', content = topic\<rparr>] \<rparr> \<and>
            sessions \<sigma>4 uuid = Some a \<and>
            map (\<lambda>s. status (heap s ! a)) [\<sigma>1, \<sigma>2, \<sigma>3, \<sigma>4] =
              [''processing'', ''researching'', ''solving'', ''waiting_for_approval''] \<and>
            heap \<sigma>4 ! a =
              \<lparr> agent = new_mathematical_agent, status = ''waiting_for_approval'',
                messages = [\<lparr>role = ''user'', content = topic\<rparr>,
                            \<lparr>role = ''assistant'',
                             content = approval_message (snd (validate_math_input U topic))\<rparr>],
                waiting_for_approval = True,
                current_solution = Some (snd (validate_math_input U topic)),
                current_topic = topic,
                research_context = Some (snd (validate_math_input U topic)) \<rparr>"
proof -
  define k where "k = length (tasks \<sigma>)"
  define a where "a = length (heap \<sigma>)"
  define msg where "msg = snd (validate_math_input U topic)"
  define \<sigma>1 where "\<sigma>1 = step U (Chat req uuid) \<sigma>"
  define \<sigma>2 where "\<sigma>2 = step U (Resume k svc1) \<sigma>1"
  define \<sigma>3 where "\<sigma>3 = step U (Resume k svc2) \<sigma>2"
  define \<sigma>4 where "\<sigma>4 = step U (Resume k svc3) \<sigma>3"
  have new: "(case req_session_id req of None \<Rightarrow> None
              | Some sid \<Rightarrow> if sid \<noteq> [] then map_option (Pair sid) (sessions \<sigma> sid) else None) = None"
    using fresh by (cases "req_session_id req") auto
  have c: "chat uuid req \<sigma> =
     (Inr \<lparr> resp_session_id = uuid, resp_status = ''processing'',
             resp_messages = [\<lparr>role = ''user'', content = topic\<rparr>] \<rparr>,
      \<sigma>\<lparr> heap := heap \<sigma> @ [new_session topic],
         sessions := (sessions \<sigma>)(uuid \<mapsto> a),
         tasks := tasks \<sigma> @ [PipelineStart uuid topic] \<rparr>)"
    unfolding chat_def new using topic by (simp add: Let_def new_session_def a_def)
  then have s1: "\<sigma>1 = \<sigma>\<lparr> heap := heap \<sigma> @ [new_session topic],
         sessions := (sessions \<sigma>)(uuid \<mapsto> a),
         tasks := tasks \<sigma> @ [PipelineStart uuid topic] \<rparr>"
    by (simp add: \<sigma>1_def)
  have s2: "\<sigma>2 = \<sigma>\<lparr> heap := heap \<sigma> @ [(new_session topic)\<lparr>status := ''researching''\<rparr>],
         sessions := (sessions \<sigma>)(uuid \<mapsto> a),
         tasks := tasks \<sigma> @ [AwaitResearch a uuid topic] \<rparr>"
    unfolding \<sigma>2_def s1 by (simp add: k_def a_def pm_start_def set_task_def upd_def)
  have s3: "\<sigma>3 = \<sigma>\<lparr> heap := heap \<sigma> @ [(new_session topic)\<lparr>status := ''solving'',
                                                      research_context := Some msg\<rparr>],
         sessions := (sessions \<sigma>)(uuid \<mapsto> a),
         tasks := tasks \<sigma> @ [AwaitSolve a uuid topic msg] \<rparr>"
    unfolding \<sigma>3_def s2
    by (simp add: k_def a_def pm_research_def research_topic_invalid[OF invalid] set_task_def upd_def
        msg_def new_session_def)
  have s4: "\<sigma>4 = \<sigma>\<lparr> heap := heap \<sigma> @
           [\<lparr> agent = new_mathematical_agent, status = ''waiting_for_approval'',
                messages = [\<lparr>role = ''user'', content = topic\<rparr>,
                            \<lparr>role = ''assistant'', content = approval_message msg\<rparr>],
                waiting_for_approval = True, current_solution = Some msg,
                current_topic = topic, research_context = Some msg \<rparr>],
         sessions := (sessions \<sigma>)(uuid \<mapsto> a),
         tasks := tasks \<sigma> \<rparr>"
    unfolding \<sigma>4_def s3
    by (simp add: k_def a_def pm_solve_def solve_problem_invalid[OF invalid] set_task_def upd_def
        msg_def new_session_def append_message_def)
  show ?thesis
    unfolding Let_def k_def[symmetric] a_def[symmetric] \<sigma>1_def[symmetric] \<sigma>2_def[symmetric]
      \<sigma>3_def[symmetric] \<sigma>4_def[symmetric] msg_def[symmetric]
    by (simp add: c s1 s2 s3 s4 a_def new_session_def)
qed

theorem rejected_topic_pipeline_witness:
  "\<not> fst (validate_math_input ascii_ucd (str_of ''hello there'')) \<and>
   heap (run ascii_ucd
          [Chat \<lparr> req_topic = str_of ''hello there'', req_session_id = None \<rparr> (str_of ''0f8c2a''),
           Resume 0 (canned_services (str_of ''42'')), Resume 0 (canned_services (str_of ''42'')),
           Resume 0 (canned_services (str_of ''42''))] init) ! 0 =
     \<lparr> agent = new_mathematical_agent, status = ''waiting_for_approval'',
       messages = [\<lparr>role = ''user'', content = str_of ''hello there''\<rparr>,
                   \<lparr>role = ''assistant'', content = approval_message msg_not_mathematical\<rparr>],
       waiting_for_approval = True, current_solution = Some msg_not_mathematical,
       current_topic = str_of ''hello there'', research_context = Some msg_not_mathematical \<rparr>"
proof -
  let ?req = "\<lparr> req_topic = str_of ''hello there'', req_session_id = None \<rparr>"
  let ?svc = "canned_services (str_of ''42'')"
  have v: "validate_math_input ascii_ucd (str_of ''hello there'') = (False, msg_not_mathematical)"
    by code_simp
  then have h: "\<not> fst (validate_math_input ascii_ucd (str_of ''hello there''))"
    and s: "snd (validate_math_input ascii_ucd (str_of ''hello there'')) = msg_not_mathematical"
    by simp_all
  have f: "\<forall>sid. req_session_id ?req = Some sid \<longrightarrow> sessions init sid = None" by simp
  have t: "req_topic ?req = str_of ''hello there''" by simp
  have k: "length (tasks init) = 0" "length (heap init) = 0" by (simp_all add: init_def)
  note T = rejected_topic_pipeline[OF h f t, of "str_of ''0f8c2a''" ?svc ?svc ?svc,
      unfolded Let_def k s]
  have r: "run ascii_ucd [Chat ?req (str_of ''0f8c2a''), Resume 0 ?svc, Resume 0 ?svc, Resume 0 ?svc] init =
      step ascii_ucd (Resume 0 ?svc) (step ascii_ucd (Resume 0 ?svc) (step ascii_ucd (Resume 0 ?svc)
        (step ascii_ucd (Chat ?req (str_of ''0f8c2a'')) init)))"
    by (simp only: run_def foldl.simps)
  show ?thesis unfolding r using h T by blast
qed

section \<open>Invariants of executions\<close>

lemma heap_all_upd:
  assumes "heap_all P \<sigma>" "\<And>s. P s \<Longrightarrow> P (f s)"
  shows "heap_all P (upd a f \<sigma>)"
proof (cases "a < length (heap \<sigma>)")
  case True
  then have "P (heap \<sigma> ! a)" using assms(1) by (simp add: heap_all_def list_all_length)
  then have "P (f (heap \<sigma> ! a))" by (rule assms(2))
  then show ?thesis
    using assms(1) set_update_subset_insert[of "heap \<sigma>" a "f (heap \<sigma> ! a)"]
    by (auto simp: heap_all_def upd_def list_all_iff)
next
  case False
  then show ?thesis using assms(1) by (simp add: heap_all_def upd_def list_update_beyond not_less)
qed

lemma heap_all_fields [simp]:
  "heap_all P (\<sigma>\<lparr>tasks := ts\<rparr>) = heap_all P \<sigma>"
  "heap_all P (\<sigma>\<lparr>sessions := m\<rparr>) = heap_all P \<sigma>"
  by (simp_all add: heap_all_def)

lemma heap_all_set_task [simp]: "heap_all P (set_task k t \<sigma>) = heap_all P \<sigma>"
  by (simp add: set_task_def heap_all_def split: option.splits)

lemma str_in_mid: "str_in x (a @ x @ b)"
  unfolding str_in_def sublist_def by blast

lemma shown_approval: "str_in x (approval_message x)"
  unfolding approval_message_def by (rule str_in_mid)

lemma shown_improved: "str_in x (improved_message fb x)"
proof -
  have "\<exists>a b. improved_message fb x = a @ x @ b"
    unfolding improved_message_def by (metis append.assoc)
  then show ?thesis using str_in_mid by metis
qed

lemma heap_all_append [simp]:
  "heap_all P (\<sigma>\<lparr>heap := heap \<sigma> @ [s]\<rparr>) \<longleftrightarrow> heap_all P \<sigma> \<and> P s"
  by (auto simp: heap_all_def)

lemma sess_ok_simps:
  "sess_ok (new_session t)"
  "sess_ok s \<Longrightarrow> sess_ok (append_message r c s)"
  "sess_ok s \<Longrightarrow> sess_ok (s\<lparr>status := st\<rparr>)"
  "sess_ok s \<Longrightarrow> sess_ok (s\<lparr>agent := ag\<rparr>)"
  "sess_ok s \<Longrightarrow> sess_ok (s\<lparr>agent := ag, research_context := rc, status := st\<rparr>)"
  "sess_ok (append_message r (approval_message x) (s\<lparr>agent := ag, current_solution := Some x, waiting_for_approval := True, status := st\<rparr>))"
  "sess_ok (append_message r c (s\<lparr>status := st, waiting_for_approval := False, current_solution := None\<rparr>))"
  "sess_ok (append_message r (improved_message fb x) (s\<lparr>agent := ag, current_solution := Some x, status := st\<rparr>))"
  by (auto simp: sess_ok_def flag_sound_def solution_shown_def new_session_def append_message_def
      shown_approval shown_improved list_ex_iff split: option.splits)

lemma pm_except_ok: "heap_all sess_ok \<sigma> \<Longrightarrow> heap_all sess_ok (pm_except sid e \<sigma>)"
  by (auto simp: pm_except_def sess_ok_simps split: py_exception.splits option.splits
      intro!: heap_all_upd)

lemma resume_ok: "heap_all sess_ok \<sigma> \<Longrightarrow> heap_all sess_ok (fst (resume U svc t \<sigma>))"
  by (cases t)
     (auto simp: pm_start_def pm_research_def pm_solve_def hi_improve_def hi_except_def sess_ok_simps
       split: option.splits prod.splits sum.splits py_exception.splits
       intro!: heap_all_upd pm_except_ok)

lemma step_ok: "heap_all sess_ok \<sigma> \<Longrightarrow> heap_all sess_ok (step U e \<sigma>)"
proof (cases e)
  case (Chat req uuid)
  assume "heap_all sess_ok \<sigma>"
  then show ?thesis unfolding Chat
    by (auto simp: chat_def Let_def sess_ok_simps split: option.splits intro!: heap_all_upd)
next
  case (HumanInput req)
  assume "heap_all sess_ok \<sigma>"
  then show ?thesis unfolding HumanInput
    by (auto simp: human_input_def Let_def sess_ok_simps split: option.splits intro!: heap_all_upd)
next
  case (Resume k svc)
  assume "heap_all sess_ok \<sigma>"
  then show ?thesis unfolding Resume using resume_ok[of \<sigma> U svc "tasks \<sigma> ! k"]
    by (auto split: prod.splits)
qed (auto simp: delete_session_def)

lemma run_ok: "heap_all sess_ok \<sigma> \<Longrightarrow> heap_all sess_ok (run U evs \<sigma>)"
  unfolding run_def by (induction evs arbitrary: \<sigma>) (simp_all add: step_ok)

lemma upd_fields [simp]:
  "sessions (upd a f \<sigma>) = sessions \<sigma>"
  "tasks (upd a f \<sigma>) = tasks \<sigma>"
  "length (heap (upd a f \<sigma>)) = length (heap \<sigma>)"
  by (simp_all add: upd_def)

lemma nth_upd:
  "heap (upd a f \<sigma>) ! b = (if a = b \<and> a < length (heap \<sigma>) then f (heap \<sigma> ! a) else heap \<sigma> ! b)"
proof (cases "a < length (heap \<sigma>)")
  case True
  then show ?thesis by (cases "a = b") (simp_all add: upd_def)
next
  case False
  then show ?thesis by (simp add: upd_def list_update_beyond not_less)
qed

lemma pm_except_fields [simp]:
  "sessions (pm_except sid e \<sigma>) = sessions \<sigma>"
  "tasks (pm_except sid e \<sigma>) = tasks \<sigma>"
  "length (heap (pm_except sid e \<sigma>)) = length (heap \<sigma>)"
  by (auto simp: pm_except_def split: py_exception.splits option.splits)

lemma task_ok_mono: "task_ok n t \<Longrightarrow> n \<le> m \<Longrightarrow> task_ok m t"
  by (cases t) auto

lemma list_all_update: "list_all P xs \<Longrightarrow> P y \<Longrightarrow> list_all P (xs[k := y])"
  using set_update_subset_insert[of xs k y] by (auto simp: list_all_iff)

lemma list_all_take_drop:
  "list_all P xs \<Longrightarrow> list_all P (take k xs)"
  "list_all P xs \<Longrightarrow> list_all P (drop k xs)"
  by (auto simp: list_all_iff dest: in_set_takeD in_set_dropD)

lemma wf_resume:
  assumes "wf \<sigma>" "k < length (tasks \<sigma>)" "resume U svc (tasks \<sigma> ! k) \<sigma> = (\<sigma>1, t)"
  shows "wf (set_task k t \<sigma>1)"
proof -
  have ok: "task_ok (length (heap \<sigma>)) (tasks \<sigma> ! k)"
    using assms(1,2) by (simp add: wf_def list_all_length)
  show ?thesis
    using assms ok
    by (cases "tasks \<sigma> ! k")
       (auto simp: wf_def set_task_def pm_start_def pm_research_def pm_solve_def hi_improve_def
          hi_except_def list_all_update list_all_take_drop
          split: option.splits prod.splits sum.splits py_exception.splits)
qed

lemma wf_step: "wf \<sigma> \<Longrightarrow> wf (step U e \<sigma>)"
proof (cases e)
  case (Chat req uuid)
  assume "wf \<sigma>"
  then show ?thesis unfolding Chat
    by (auto simp: chat_def Let_def wf_def list_all_iff less_Suc_eq
        split: option.splits if_splits intro: task_ok_mono)
next
  case (HumanInput req)
  assume "wf \<sigma>"
  then show ?thesis unfolding HumanInput
    by (auto simp: human_input_def Let_def wf_def split: option.splits)
next
  case (Resume k svc)
  assume "wf \<sigma>"
  then show ?thesis unfolding Resume using wf_resume[of \<sigma> k U svc]
    by (auto split: prod.splits)
next
  case (DeleteSession sid)
  assume "wf \<sigma>"
  then show ?thesis unfolding DeleteSession by (auto simp: delete_session_def wf_def)
qed simp

lemma heap_all_upd_at:
  assumes "heap_all P \<sigma>" "a < length (heap \<sigma>) \<Longrightarrow> P (f (heap \<sigma> ! a))"
  shows "heap_all P (upd a f \<sigma>)"
proof (cases "a < length (heap \<sigma>)")
  case True
  then show ?thesis
    using assms set_update_subset_insert[of "heap \<sigma>" a "f (heap \<sigma> ! a)"]
    by (auto simp: heap_all_def upd_def list_all_iff)
next
  case False
  then show ?thesis using assms(1) by (simp add: heap_all_def upd_def list_update_beyond not_less)
qed

lemma flag_exact_simps:
  "flag_exact (new_session t)"
  "flag_exact s \<Longrightarrow> flag_exact (append_message r c s)"
  "flag_exact s \<Longrightarrow> st \<noteq> ''waiting_for_approval'' \<Longrightarrow> flag_exact (s\<lparr>status := st\<rparr>)"
  "flag_exact s \<Longrightarrow> flag_exact (s\<lparr>agent := ag\<rparr>)"
  "flag_exact s \<Longrightarrow> st \<noteq> ''waiting_for_approval'' \<Longrightarrow>
     flag_exact (s\<lparr>agent := ag, research_context := rc, status := st\<rparr>)"
  "flag_exact (append_message r c (s\<lparr>agent := ag, current_solution := Some x, waiting_for_approval := True, status := st\<rparr>))"
  "st \<noteq> ''waiting_for_approval'' \<Longrightarrow>
     flag_exact (append_message r c (s\<lparr>status := st, waiting_for_approval := False, current_solution := None\<rparr>))"
  "flag_exact s \<Longrightarrow> waiting_for_approval s \<Longrightarrow>
     flag_exact (append_message r c (s\<lparr>agent := ag, current_solution := Some x, status := st\<rparr>))"
  by (auto simp: flag_exact_def new_session_def append_message_def)

lemma feedback_pending_simps [simp]:
  "feedback_pending (upd a f \<sigma>) b = feedback_pending \<sigma> b"
  "feedback_pending (pm_except sid e \<sigma>) b = feedback_pending \<sigma> b"
  "feedback_pending (\<sigma>\<lparr>sessions := m\<rparr>) b = feedback_pending \<sigma> b"
  "feedback_pending (\<sigma>\<lparr>heap := h\<rparr>) b = feedback_pending \<sigma> b"
  "feedback_pending (\<sigma>\<lparr>tasks := tasks \<sigma> @ [t]\<rparr>) b \<longleftrightarrow> feedback_pending \<sigma> b \<or> improving b t"
  by (auto simp: feedback_pending_def)

lemma feedback_pending_set_task:
  "feedback_pending (set_task k t \<sigma>) b \<Longrightarrow>
     feedback_pending \<sigma> b \<or> (\<exists>t'. t = Some t' \<and> improving b t')"
  using set_update_subset_insert[of "tasks \<sigma>" k]
  by (auto simp: feedback_pending_def set_task_def list_ex_iff split: option.splits
      dest: in_set_takeD in_set_dropD)

lemma feedback_pending_nth:
  "k < length (tasks \<sigma>) \<Longrightarrow> tasks \<sigma> ! k = AwaitImprove a x y z \<Longrightarrow> feedback_pending \<sigma> a"
  by (metis feedback_pending_def improving.simps(1) list_ex_iff nth_mem)

lemma feedback_pending_lt: "wf \<sigma> \<Longrightarrow> feedback_pending \<sigma> a \<Longrightarrow> a < length (heap \<sigma>)"
proof -
  assume w: "wf \<sigma>" and "feedback_pending \<sigma> a"
  then obtain t where t: "t \<in> set (tasks \<sigma>)" "improving a t"
    by (auto simp: feedback_pending_def list_ex_iff)
  with w have "task_ok (length (heap \<sigma>)) t" by (auto simp: wf_def list_all_iff)
  with t(2) show ?thesis by (cases t) auto
qed

lemma pm_except_flag:
  "waiting_for_approval (heap (pm_except sid e \<sigma>) ! b) = waiting_for_approval (heap \<sigma> ! b)"
  by (auto simp: pm_except_def nth_upd append_message_def split: py_exception.splits option.splits)

lemma pm_except_exact: "heap_all flag_exact \<sigma> \<Longrightarrow> heap_all flag_exact (pm_except sid e \<sigma>)"
  by (auto simp: pm_except_def flag_exact_simps split: py_exception.splits option.splits
      intro!: heap_all_upd)

lemma serial_resume:
  assumes inv: "serial_inv \<sigma>" and k: "k < length (tasks \<sigma>)"
    and r: "resume U svc (tasks \<sigma> ! k) \<sigma> = (\<sigma>1, t)"
  shows "heap_all flag_exact (set_task k t \<sigma>1) \<and> pending_flagged (set_task k t \<sigma>1)"
proof -
  from inv have w: "wf \<sigma>" and ex: "heap_all flag_exact \<sigma>" and pf: "pending_flagged \<sigma>"
    by (simp_all add: serial_inv_def)
  have still: "feedback_pending \<sigma> b" if "feedback_pending (set_task k t \<sigma>1) b" for b
    using that r feedback_pending_set_task[of k t \<sigma>1 b]
    by (cases "tasks \<sigma> ! k")
       (auto simp: pm_start_def pm_research_def pm_solve_def hi_improve_def hi_except_def
         split: option.splits prod.splits sum.splits py_exception.splits)
  have keep: "waiting_for_approval (heap \<sigma>1 ! b)" if "waiting_for_approval (heap \<sigma> ! b)" for b
    using that r
    by (cases "tasks \<sigma> ! k")
       (auto simp: pm_start_def pm_research_def pm_solve_def hi_improve_def hi_except_def nth_upd
         pm_except_flag append_message_def
         split: option.splits prod.splits sum.splits py_exception.splits)
  have "heap_all flag_exact \<sigma>1"
  proof (cases "tasks \<sigma> ! k")
    case (AwaitImprove a x y z)
    with k have "feedback_pending \<sigma> a" by (rule feedback_pending_nth)
    with pf have "waiting_for_approval (heap \<sigma> ! a)" by (simp add: pending_flagged_def)
    moreover have "a < length (heap \<sigma>) \<Longrightarrow> flag_exact (heap \<sigma> ! a)"
      using ex by (simp add: heap_all_def list_all_length)
    ultimately show ?thesis using r ex unfolding AwaitImprove
      by (auto simp: hi_improve_def hi_except_def flag_exact_simps nth_upd
          split: prod.splits sum.splits py_exception.splits
          intro!: heap_all_upd_at)
  qed (use r ex in \<open>auto simp: pm_start_def pm_research_def pm_solve_def flag_exact_simps
          split: option.splits prod.splits sum.splits
          intro!: heap_all_upd pm_except_exact\<close>)
  moreover have "pending_flagged (set_task k t \<sigma>1)"
    unfolding pending_flagged_def
  proof (intro allI impI)
    fix b assume "feedback_pending (set_task k t \<sigma>1) b"
    then have "feedback_pending \<sigma> b" by (rule still)
    with pf have "waiting_for_approval (heap \<sigma> ! b)" by (simp add: pending_flagged_def)
    then have "waiting_for_approval (heap \<sigma>1 ! b)" by (rule keep)
    then show "waiting_for_approval (heap (set_task k t \<sigma>1) ! b)"
      by (simp add: set_task_def split: option.splits)
  qed
  ultimately show ?thesis by simp
qed

lemma append_message_fields [simp]:
  "agent (append_message r c s) = agent s"
  "status (append_message r c s) = status s"
  "waiting_for_approval (append_message r c s) = waiting_for_approval s"
  "current_solution (append_message r c s) = current_solution s"
  "current_topic (append_message r c s) = current_topic s"
  "research_context (append_message r c s) = research_context s"
  "messages (append_message r c s) = messages s @ [\<lparr>role = r, content = c\<rparr>]"
  by (simp_all add: append_message_def)

lemma serial_chat:
  assumes "serial_inv \<sigma>"
  shows "heap_all flag_exact (snd (chat uuid req \<sigma>)) \<and> pending_flagged (snd (chat uuid req \<sigma>))"
proof -
  from assms have w: "wf \<sigma>" and ex: "heap_all flag_exact \<sigma>" and pf: "pending_flagged \<sigma>"
    by (simp_all add: serial_inv_def)
  have lt: "b < length (heap \<sigma>)" if "list_ex (improving b) (tasks \<sigma>)" for b
    using w that feedback_pending_lt by (simp add: feedback_pending_def)
  show ?thesis
    using ex pf lt
    by (auto simp: chat_def Let_def flag_exact_simps pending_flagged_def nth_upd nth_append
        feedback_pending_def
        split: option.splits if_splits intro!: heap_all_upd)
qed

lemma serial_human_input:
  assumes "serial_inv \<sigma>" "enabled (HumanInput req) \<sigma>"
  shows "heap_all flag_exact (snd (human_input U req \<sigma>)) \<and>
         pending_flagged (snd (human_input U req \<sigma>))"
proof -
  from assms have w: "wf \<sigma>" and ex: "heap_all flag_exact \<sigma>" and pf: "pending_flagged \<sigma>"
    by (simp_all add: serial_inv_def)
  show ?thesis
  proof (cases "sessions \<sigma> (hi_session_id req)")
    case None
    then show ?thesis using ex pf by (simp add: human_input_def)
  next
    case (Some a)
    with assms(2) have np: "\<not> feedback_pending \<sigma> a" by simp
    from Some w have lt: "a < length (heap \<sigma>)" by (simp add: wf_def)
    show ?thesis
      using ex pf np lt Some
      by (auto simp: human_input_def Let_def flag_exact_simps pending_flagged_def nth_upd
          feedback_pending_def
          intro!: heap_all_upd)
  qed
qed

lemma serial_step:
  assumes "serial_inv \<sigma>" "enabled e \<sigma>"
  shows "serial_inv (step U e \<sigma>)"
proof -
  have "wf (step U e \<sigma>)" using assms(1) by (simp add: serial_inv_def wf_step)
  moreover have "heap_all flag_exact (step U e \<sigma>) \<and> pending_flagged (step U e \<sigma>)"
  proof (cases e)
    case (Chat req uuid)
    then show ?thesis using serial_chat[OF assms(1)] by simp
  next
    case (GetChat sid)
    then show ?thesis using assms(1) by (simp add: serial_inv_def)
  next
    case (DeleteSession sid)
    then show ?thesis using assms(1)
      by (auto simp: serial_inv_def delete_session_def pending_flagged_def)
  next
    case (HumanInput req)
    then show ?thesis using serial_human_input[OF assms(1)] assms(2) by simp
  next
    case (Resume k svc)
    show ?thesis
    proof (cases "k < length (tasks \<sigma>)")
      case True
      obtain \<sigma>1 t where "resume U svc (tasks \<sigma> ! k) \<sigma> = (\<sigma>1, t)"
        by (cases "resume U svc (tasks \<sigma> ! k) \<sigma>")
      with True serial_resume[OF assms(1) True this] show ?thesis by (simp add: Resume)
    next
      case False
      then show ?thesis using assms(1) by (simp add: Resume serial_inv_def)
    qed
  qed
  ultimately show ?thesis by (simp add: serial_inv_def)
qed

lemma serial_run:
  "serial_inv \<sigma> \<Longrightarrow> serial_feedback U evs \<sigma> \<Longrightarrow> serial_inv (run U evs \<sigma>)"
  unfolding run_def by (induction evs arbitrary: \<sigma>) (simp_all add: serial_step)

lemma serial_init: "serial_inv init"
  by (simp add: serial_inv_def wf_def heap_all_def pending_flagged_def feedback_pending_def init_def)

lemma wf_run: "wf \<sigma> \<Longrightarrow> wf (run U evs \<sigma>)"
  unfolding run_def by (induction evs arbitrary: \<sigma>) (simp_all add: wf_step)

lemma wf_init: "wf init"
  by (simp add: wf_def init_def)

lemma ok_init: "heap_all sess_ok init"
  by (simp add: heap_all_def init_def)

lemma flag_kept:
  assumes "a < length (heap \<sigma>)" "waiting_for_approval (heap \<sigma> ! a)"
    "status (heap (step U e \<sigma>) ! a) \<noteq> ''completed''"
  shows "waiting_for_approval (heap (step U e \<sigma>) ! a)"
proof (cases e)
  case (Chat req uuid)
  then show ?thesis using assms(1,2)
    by (auto simp: chat_def Let_def nth_upd nth_append split: option.splits if_splits)
next
  case (GetChat sid)
  then show ?thesis using assms(2) by simp
next
  case (DeleteSession sid)
  then show ?thesis using assms(2) by (simp add: delete_session_def)
next
  case (HumanInput req)
  then show ?thesis using assms
    by (auto simp: human_input_def Let_def nth_upd split: option.splits if_splits)
next
  case (Resume k svc)
  show ?thesis
  proof (cases "k < length (tasks \<sigma>)")
    case True
    then show ?thesis using assms(1,2) unfolding Resume
      by (cases "tasks \<sigma> ! k")
         (auto simp: pm_start_def pm_research_def pm_solve_def hi_improve_def hi_except_def nth_upd
           pm_except_flag set_task_def
           split: option.splits prod.splits sum.splits py_exception.splits)
  next
    case False
    then show ?thesis using assms(2) by (simp add: Resume)
  qed
qed

lemma improve_solution_returns:
  "\<exists>self1 calls improved. improve_solution U svc self sol fb topic = (self1, calls, Inr improved)"
  by (auto simp: improve_solution_def improve_fallback_def Let_def
      split: prod.splits option.splits sum.splits py_exception.splits)

lemma awaiting_flag:
  assumes "\<sigma> = run U evs init" "sessions \<sigma> sid = Some a"
    "waiting_for_approval (heap \<sigma> ! a) \<or>
     (serial_feedback U evs init \<and> status (heap \<sigma> ! a) = ''waiting_for_approval'')"
  shows "a < length (heap \<sigma>) \<and> waiting_for_approval (heap \<sigma> ! a)"
proof -
  have "wf \<sigma>" unfolding assms(1) using wf_init by (rule wf_run)
  with assms(2) have lt: "a < length (heap \<sigma>)" by (simp add: wf_def)
  from assms(3) have "waiting_for_approval (heap \<sigma> ! a)"
  proof
    assume s: "serial_feedback U evs init \<and> status (heap \<sigma> ! a) = ''waiting_for_approval''"
    then have "serial_inv \<sigma>" unfolding assms(1) using serial_init serial_run by blast
    with lt have "flag_exact (heap \<sigma> ! a)" by (simp add: serial_inv_def heap_all_def list_all_length)
    with s show ?thesis unfolding flag_exact_def by blast
  qed
  with lt show ?thesis by simp
qed

lemma str_in_tail:
  assumes "str_in p r"
  shows "str_in p (a @ b @ c @ d @ r)"
proof -
  from assms obtain ps ss where "r = ps @ p @ ss" by (auto simp: str_in_def sublist_def)
  then have "a @ b @ c @ d @ r = (a @ b @ c @ d @ ps) @ p @ ss" by simp
  then show ?thesis unfolding str_in_def sublist_def by blast
qed

section \<open>Properties of the approval loop\<close>

text \<open>
  Claim C1, as stated, says that every transition to a status other than
  \<^verbatim>\<open>waiting_for_approval\<close> clears the flag, in particular the transition to \<^verbatim>\<open>improving\<close>.
  In the execution below a session awaits approval and receives the feedback
  \<^verbatim>\<open>show more steps\<close>: its status becomes \<^verbatim>\<open>improving\<close> and its flag is still set.
\<close>

theorem improving_keeps_flag:
  "status (heap (run ascii_ucd demo_pipeline init) ! 0) = ''waiting_for_approval'' \<and>
   waiting_for_approval (heap (run ascii_ucd demo_pipeline init) ! 0) \<and>
   status (heap (step ascii_ucd
       (HumanInput \<lparr>hi_session_id = demo_id, feedback = str_of ''show more steps''\<rparr>)
       (run ascii_ucd demo_pipeline init)) ! 0) = ''improving'' \<and>
   waiting_for_approval (heap (step ascii_ucd
       (HumanInput \<lparr>hi_session_id = demo_id, feedback = str_of ''show more steps''\<rparr>)
       (run ascii_ucd demo_pipeline init)) ! 0)"
  by code_simp

text \<open>
  Claim C1, amended: in every execution in which feedback requests for one session do not
  overlap, at every point between handler segments and for every session object, the flag
  \<open>waiting_for_approval\<close> is set if and only if \<open>current_solution\<close> is not null; and the
  flag is cleared only by the transition to \<^verbatim>\<open>completed\<close>: any step that leaves a flagged
  session in another status (\<^verbatim>\<open>researching\<close>, \<^verbatim>\<open>solving\<close>, \<^verbatim>\<open>improving\<close>) leaves the flag set.
\<close>

theorem flag_iff_solution:
  assumes "serial_feedback U evs init"
  shows "(\<forall>s \<in> set (heap (run U evs init)).
            waiting_for_approval s \<longleftrightarrow> current_solution s \<noteq> None) \<and>
         (\<forall>e a. a < length (heap (run U evs init)) \<and>
                 waiting_for_approval (heap (run U evs init) ! a) \<and>
                 status (heap (step U e (run U evs init)) ! a) \<noteq> ''completed'' \<longrightarrow>
                 waiting_for_approval (heap (step U e (run U evs init)) ! a))"
proof -
  have "serial_inv (run U evs init)" using serial_init assms by (rule serial_run)
  then have "heap_all flag_exact (run U evs init)" by (simp add: serial_inv_def)
  then show ?thesis
    using flag_kept by (auto simp: heap_all_def list_all_iff flag_exact_def)
qed

theorem flag_iff_solution_witness:
  "serial_feedback ascii_ucd demo_pipeline init \<and>
   waiting_for_approval (heap (run ascii_ucd demo_pipeline init) ! 0) \<and>
   current_solution (heap (run ascii_ucd demo_pipeline init) ! 0) \<noteq> None"
proof -
  have h: "serial_feedback ascii_ucd demo_pipeline init" by code_simp
  have f: "waiting_for_approval (heap (run ascii_ucd demo_pipeline init) ! 0)" by code_simp
  have l: "length (heap (run ascii_ucd demo_pipeline init)) = 1" by code_simp
  then have m: "heap (run ascii_ucd demo_pipeline init) ! 0 \<in> set (heap (run ascii_ucd demo_pipeline init))"
    by (intro nth_mem) simp
  from flag_iff_solution[OF h] m f
  have "current_solution (heap (run ascii_ucd demo_pipeline init) ! 0) \<noteq> None" by blast
  with h f show ?thesis by blast
qed

text \<open>
  The condition on overlapping feedback is needed. Below, a second feedback request
  (an approval) is handled while the Revise stage of the first is pending; when the first
  is resumed it stores the revised solution and sets the status back to
  \<^verbatim>\<open>waiting_for_approval\<close>, but the approval has cleared the flag: the session ends with a
  solution, the status \<^verbatim>\<open>waiting_for_approval\<close> and no flag. In all executions, overlapping
  or not, a set flag does imply a solution (\<open>run_ok\<close>).
\<close>

theorem overlapping_feedback_race:
  "\<not> serial_feedback ascii_ucd
       (demo_pipeline @
        [HumanInput \<lparr>hi_session_id = demo_id, feedback = str_of ''show more steps''\<rparr>,
         HumanInput \<lparr>hi_session_id = demo_id, feedback = str_of ''approve''\<rparr>,
         Resume 0 (canned_services (str_of ''2 + 2 = 4''))]) init \<and>
   heap (run ascii_ucd
       (demo_pipeline @
        [HumanInput \<lparr>hi_session_id = demo_id, feedback = str_of ''show more steps''\<rparr>,
         HumanInput \<lparr>hi_session_id = demo_id, feedback = str_of ''approve''\<rparr>,
         Resume 0 (canned_services (str_of ''2 + 2 = 4''))]) init) ! 0 =
     \<lparr> agent = \<lparr> research_agent = Some (FunctionAgent ''MathResearchAgent''
                                            [''rag_knowledge_search'', ''websearch_tool'']),
                 math_agent = Some (FunctionAgent ''MathSolverAgent'' []),
                 tools_initialized = True \<rparr>,
       status = ''waiting_for_approval'',
       messages =
         [\<lparr>role = ''user'', content = str_of ''2+2''\<rparr>,
          \<lparr>role = ''assistant'', content = approval_message (str_of ''4'')\<rparr>,
          \<lparr>role = ''user'', content = str_of ''show more steps''\<rparr>,
          \<lparr>role = ''assistant'', content = thanks_message\<rparr>,
          \<lparr>role = ''user'', content = str_of ''approve''\<rparr>,
          \<lparr>role = ''assistant'', content = approved_message (Some (str_of ''4''))\<rparr>,
          \<lparr>role = ''assistant'',
           content = improved_message (str_of ''show more steps'') (str_of ''2 + 2 = 4'')\<rparr>],
       waiting_for_approval = False,
       current_solution = Some (str_of ''2 + 2 = 4''),
       current_topic = str_of ''2+2'',
       research_context = Some (str_of ''4'') \<rparr>"
  by code_simp

text \<open>
  Claim C4, as stated, is about every session in state \<^verbatim>\<open>waiting_for_approval\<close>. The handler
  tests the flag, not the status, and after overlapping feedback requests a session can
  have the status without the flag. In that state, reached by \<open>demo_race\<close>, the feedback
  \<^verbatim>\<open>approve\<close> is answered with HTTP 400 and nothing changes: the status stays
  \<^verbatim>\<open>waiting_for_approval\<close> and the solution is kept.
\<close>

theorem approval_refused_after_race:
  "sessions (run ascii_ucd demo_race init) demo_id = Some 0 \<and>
   status (heap (run ascii_ucd demo_race init) ! 0) = ''waiting_for_approval'' \<and>
   approves ascii_ucd (str_of ''approve'') \<and>
   human_input ascii_ucd \<lparr>hi_session_id = demo_id, feedback = str_of ''approve''\<rparr>
       (run ascii_ucd demo_race init) =
     (Some (Inl (HTTPException 400 (str_of ''Session is not waiting for feedback''))),
      run ascii_ucd demo_race init) \<and>
   current_solution (heap (run ascii_ucd demo_race init) ! 0) = Some (str_of ''2 + 2 = 4'')"
proof -
  have s: "sessions (run ascii_ucd demo_race init) demo_id = Some 0" by code_simp
  have f: "\<not> waiting_for_approval (heap (run ascii_ucd demo_race init) ! 0)" by code_simp
  have st: "status (heap (run ascii_ucd demo_race init) ! 0) = ''waiting_for_approval''"
    by code_simp
  have a: "approves ascii_ucd (str_of ''approve'')" by code_simp
  have c: "current_solution (heap (run ascii_ucd demo_race init) ! 0) = Some (str_of ''2 + 2 = 4'')"
    by code_simp
  have "human_input ascii_ucd \<lparr>hi_session_id = demo_id, feedback = str_of ''approve''\<rparr>
       (run ascii_ucd demo_race init) =
     (Some (Inl (HTTPException 400 (str_of ''Session is not waiting for feedback''))),
      run ascii_ucd demo_race init)"
    using s f by (simp add: human_input_def)
  with s st a c show ?thesis by simp
qed

text \<open>
  Claim C4, amended: in every execution, when a session's \<open>waiting_for_approval\<close> flag is
  set (in an execution without overlapping feedback requests that is the case whenever its
  status is \<^verbatim>\<open>waiting_for_approval\<close>) and the stripped, lowered feedback contains an approval
  phrase, POST /human-input answers success and finalizes the session: the feedback and a
  final assistant message with the solution are appended, the status is \<^verbatim>\<open>completed\<close>, the
  flag is cleared and \<open>current_solution\<close> is null. Nothing else changes.
\<close>

theorem approval_finalizes:
  assumes "\<sigma> = run U evs init" "sessions \<sigma> sid = Some a"
    and "waiting_for_approval (heap \<sigma> ! a) \<or>
         (serial_feedback U evs init \<and> status (heap \<sigma> ! a) = ''waiting_for_approval'')"
    and "\<exists>word \<in> set APPROVAL_WORDS. str_in word (lower_of U (strip fb))"
  shows "human_input U \<lparr>hi_session_id = sid, feedback = fb\<rparr> \<sigma> =
     (Some (Inr hi_success),
      \<sigma>\<lparr>heap := (heap \<sigma>)[a := (heap \<sigma> ! a)
         \<lparr> status := ''completed'', waiting_for_approval := False, current_solution := None,
           messages := messages (heap \<sigma> ! a) @
             [\<lparr>role = ''user'', content = fb\<rparr>,
              \<lparr>role = ''assistant'',
               content = approved_message (current_solution (heap \<sigma> ! a))\<rparr>] \<rparr>]\<rparr>)"
proof -
  from awaiting_flag[OF assms(1-3)]
  have lt: "a < length (heap \<sigma>)" and fl: "waiting_for_approval (heap \<sigma> ! a)" by simp_all
  have ap: "approves U fb" using assms(4) by (simp add: approves_def list_ex_iff)
  show ?thesis
    using assms(2) lt fl ap
    by (simp add: human_input_def Let_def upd_def append_message_def)
qed

theorem approval_finalizes_witness:
  "sessions (run ascii_ucd demo_pipeline init) demo_id = Some 0 \<and>
   waiting_for_approval (heap (run ascii_ucd demo_pipeline init) ! 0) \<and>
   (\<exists>word \<in> set APPROVAL_WORDS. str_in word (lower_of ascii_ucd (strip (str_of '' Looks GOOD, thanks '')))) \<and>
   fst (human_input ascii_ucd \<lparr>hi_session_id = demo_id, feedback = str_of '' Looks GOOD, thanks ''\<rparr>
          (run ascii_ucd demo_pipeline init)) = Some (Inr hi_success) \<and>
   status (heap (snd (human_input ascii_ucd \<lparr>hi_session_id = demo_id, feedback = str_of '' Looks GOOD, thanks ''\<rparr>
          (run ascii_ucd demo_pipeline init))) ! 0) = ''completed''"
proof -
  have s: "sessions (run ascii_ucd demo_pipeline init) demo_id = Some 0" by code_simp
  have f: "waiting_for_approval (heap (run ascii_ucd demo_pipeline init) ! 0)" by code_simp
  have w: "\<exists>word \<in> set APPROVAL_WORDS. str_in word (lower_of ascii_ucd (strip (str_of '' Looks GOOD, thanks '')))"
    by code_simp
  have l: "length (heap (run ascii_ucd demo_pipeline init)) = 1" by code_simp
  note E = approval_finalizes[OF refl s disjI1[OF f] w]
  have "fst (human_input ascii_ucd \<lparr>hi_session_id = demo_id, feedback = str_of '' Looks GOOD, thanks ''\<rparr>
          (run ascii_ucd demo_pipeline init)) = Some (Inr hi_success)"
    unfolding E by simp
  moreover have "status (heap (snd (human_input ascii_ucd \<lparr>hi_session_id = demo_id, feedback = str_of '' Looks GOOD, thanks ''\<rparr>
          (run ascii_ucd demo_pipeline init))) ! 0) = ''completed''"
    unfolding E using l by simp
  ultimately show ?thesis using s f w by blast
qed

text \<open>
  Claim C5, as stated, is about every session in state \<^verbatim>\<open>waiting_for_approval\<close>. In the
  state reached by \<open>demo_race\<close> (status \<^verbatim>\<open>waiting_for_approval\<close>, flag cleared) a feedback
  without approval phrase is answered with HTTP 400: the status never becomes \<^verbatim>\<open>improving\<close>,
  no Revise stage is started and the state is unchanged.
\<close>

theorem revision_refused_after_race:
  "sessions (run ascii_ucd demo_race init) demo_id = Some 0 \<and>
   status (heap (run ascii_ucd demo_race init) ! 0) = ''waiting_for_approval'' \<and>
   tasks (run ascii_ucd demo_race init) = [] \<and>
   \<not> approves ascii_ucd (str_of ''add a diagram'') \<and>
   human_input ascii_ucd \<lparr>hi_session_id = demo_id, feedback = str_of ''add a diagram''\<rparr>
       (run ascii_ucd demo_race init) =
     (Some (Inl (HTTPException 400 (str_of ''Session is not waiting for feedback''))),
      run ascii_ucd demo_race init)"
proof -
  have s: "sessions (run ascii_ucd demo_race init) demo_id = Some 0" by code_simp
  have f: "\<not> waiting_for_approval (heap (run ascii_ucd demo_race init) ! 0)" by code_simp
  have st: "status (heap (run ascii_ucd demo_race init) ! 0) = ''waiting_for_approval''"
    by code_simp
  have ts: "tasks (run ascii_ucd demo_race init) = []" by code_simp
  have na: "\<not> approves ascii_ucd (str_of ''add a diagram'')" by code_simp
  have "human_input ascii_ucd \<lparr>hi_session_id = demo_id, feedback = str_of ''add a diagram''\<rparr>
       (run ascii_ucd demo_race init) =
     (Some (Inl (HTTPException 400 (str_of ''Session is not waiting for feedback''))),
      run ascii_ucd demo_race init)"
    using s f by (simp add: human_input_def)
  with s st ts na show ?thesis by simp
qed

text \<open>
  Claim C5, amended: in every execution, when a session's \<open>waiting_for_approval\<close> flag is
  set (in an execution without overlapping feedback requests that is the case whenever its
  status is \<^verbatim>\<open>waiting_for_approval\<close>) and the feedback contains no approval phrase, the
  handler sets the status to \<^verbatim>\<open>improving\<close> and suspends in the Revise stage; when it is
  resumed, the status is \<^verbatim>\<open>waiting_for_approval\<close> again, the flag is set,
  \<open>current_solution\<close> is the revised solution, the history has grown by the feedback, the
  acknowledgement and an answer that ends in the new review prompt, and the original
  solution still occurs in a message of the history.
\<close>

theorem revise_cycle:
  assumes "\<sigma> = run U evs init" "sessions \<sigma> sid = Some a"
    and "waiting_for_approval (heap \<sigma> ! a) \<or>
         (serial_feedback U evs init \<and> status (heap \<sigma> ! a) = ''waiting_for_approval'')"
    and "\<not> (\<exists>word \<in> set APPROVAL_WORDS. str_in word (lower_of U (strip fb)))"
  shows "let old = heap \<sigma> ! a;
             \<sigma>1 = step U (HumanInput \<lparr>hi_session_id = sid, feedback = fb\<rparr>) \<sigma>;
             \<sigma>2 = step U (Resume (length (tasks \<sigma>)) svc) \<sigma>1
         in status (heap \<sigma>1 ! a) = ''improving'' \<and>
            status (heap \<sigma>2 ! a) = ''waiting_for_approval'' \<and>
            waiting_for_approval (heap \<sigma>2 ! a) \<and>
            (\<exists>improved.
               snd (snd (improve_solution U svc (agent old) (fstr (current_solution old)) fb
                           (current_topic old))) = Inr improved \<and>
               current_solution (heap \<sigma>2 ! a) = Some improved \<and>
               messages (heap \<sigma>2 ! a) = messages old @
                 [\<lparr>role = ''user'', content = fb\<rparr>,
                  \<lparr>role = ''assistant'', content = thanks_message\<rparr>,
                  \<lparr>role = ''assistant'', content = improved_message fb improved\<rparr>]) \<and>
            str_in (str_of ''Please Review Again'') (content (last (messages (heap \<sigma>2 ! a)))) \<and>
            (\<exists>original. current_solution old = Some original \<and>
               list_ex (\<lambda>m. str_in original (content m)) (messages (heap \<sigma>2 ! a)))"
proof -
  define old where "old = heap \<sigma> ! a"
  define req where "req = \<lparr>hi_session_id = sid, feedback = fb\<rparr>"
  define \<sigma>1 where "\<sigma>1 = step U (HumanInput req) \<sigma>"
  define \<sigma>2 where "\<sigma>2 = step U (Resume (length (tasks \<sigma>)) svc) \<sigma>1"
  from awaiting_flag[OF assms(1-3)]
  have lt: "a < length (heap \<sigma>)" and fl: "waiting_for_approval old" by (simp_all add: old_def)
  have na: "\<not> approves U fb" using assms(4) by (simp add: approves_def list_ex_iff)
  have "heap_all sess_ok \<sigma>" unfolding assms(1) using ok_init by (rule run_ok)
  with lt have ok: "sess_ok old" by (simp add: heap_all_def list_all_length old_def)
  with fl obtain original where orig: "current_solution old = Some original"
    and shown: "list_ex (\<lambda>m. str_in original (content m)) (messages old)"
    by (auto simp: sess_ok_def flag_sound_def solution_shown_def split: option.splits)
  have s1: "\<sigma>1 = \<sigma>\<lparr>heap := (heap \<sigma>)[a := old\<lparr>status := ''improving'',
               messages := messages old @ [\<lparr>role = ''user'', content = fb\<rparr>,
                                            \<lparr>role = ''assistant'', content = thanks_message\<rparr>]\<rparr>],
             tasks := tasks \<sigma> @ [AwaitImprove a (fstr (current_solution old)) fb (current_topic old)]\<rparr>"
    unfolding \<sigma>1_def req_def using assms(2) lt fl na
    by (simp add: human_input_def Let_def upd_def append_message_def old_def)
  obtain self1 calls improved where imp:
    "improve_solution U svc (agent old) (fstr (current_solution old)) fb (current_topic old) =
       (self1, calls, Inr improved)"
    using improve_solution_returns by blast
  have s2: "heap \<sigma>2 ! a = old\<lparr>agent := self1, current_solution := Some improved,
              status := ''waiting_for_approval'',
              messages := messages old @ [\<lparr>role = ''user'', content = fb\<rparr>,
                                           \<lparr>role = ''assistant'', content = thanks_message\<rparr>,
                                           \<lparr>role = ''assistant'', content = improved_message fb improved\<rparr>]\<rparr>"
    unfolding \<sigma>2_def s1 using lt imp
    by (simp add: hi_improve_def set_task_def upd_def append_message_def)
  have prompt: "str_in (str_of ''Please Review Again'') (improved_message fb improved)"
  proof -
    have "str_in (str_of ''Please Review Again'') review_again_prompt" by code_simp
    then show ?thesis
      unfolding improved_message_def by (rule str_in_tail)
  qed
  have "status (heap \<sigma>1 ! a) = ''improving''" using lt by (simp add: s1)
  moreover have "list_ex (\<lambda>m. str_in original (content m)) (messages (heap \<sigma>2 ! a))"
    using shown by (auto simp: s2 list_ex_iff)
  ultimately show ?thesis
    unfolding Let_def old_def[symmetric] req_def[symmetric] \<sigma>1_def[symmetric] \<sigma>2_def[symmetric]
    using fl orig imp prompt by (simp add: s2)
qed

theorem revise_cycle_witness:
  "sessions (run ascii_ucd demo_pipeline init) demo_id = Some 0 \<and>
   waiting_for_approval (heap (run ascii_ucd demo_pipeline init) ! 0) \<and>
   \<not> (\<exists>word \<in> set APPROVAL_WORDS. str_in word (lower_of ascii_ucd (strip (str_of ''show more steps'')))) \<and>
   status (heap (step ascii_ucd (HumanInput \<lparr>hi_session_id = demo_id, feedback = str_of ''show more steps''\<rparr>)
       (run ascii_ucd demo_pipeline init)) ! 0) = ''improving'' \<and>
   status (heap (step ascii_ucd (Resume 0 (canned_services (str_of ''2 + 2 = 4'')))
     (step ascii_ucd (HumanInput \<lparr>hi_session_id = demo_id, feedback = str_of ''show more steps''\<rparr>)
       (run ascii_ucd demo_pipeline init))) ! 0) = ''waiting_for_approval''"
proof -
  have s: "sessions (run ascii_ucd demo_pipeline init) demo_id = Some 0" by code_simp
  have f: "waiting_for_approval (heap (run ascii_ucd demo_pipeline init) ! 0)" by code_simp
  have w: "\<not> (\<exists>word \<in> set APPROVAL_WORDS. str_in word (lower_of ascii_ucd (strip (str_of ''show more steps''))))"
    by code_simp
  have t: "length (tasks (run ascii_ucd demo_pipeline init)) = 0" by code_simp
  note E = revise_cycle[OF refl s disjI1[OF f] w, of "canned_services (str_of ''2 + 2 = 4'')",
      unfolded Let_def t]
  from E s f w show ?thesis by blast
qed

end
